theory Spec2Isabelle
  imports Complex_Main "HOL-Library.Word"
begin

unbundle bit_operations_syntax

section \<open>Input events (src/core/InputEvent.cpp)\<close>

subsection \<open>The raw SDL event\<close>

text \<open>
  \<open>InputEvent\<close> wraps one \<open>SDL_Event\<close>, a C union tagged by its \<open>type\<close> field.
  One constructor stands for each event type the code tests, carrying the members of the
  union that the code reads for that type; the selectors are named after the C member
  path (\<open>key.keysym.sym\<close> is \<open>key_sym\<close>, \<open>caxis.value\<close> is \<open>caxis_value\<close>).
  The three mouse button fields are the ones read through the member \<open>button\<close>, and
  \<open>SDL_OTHER\<close> is any event type the code never names.
  The finger coordinates and pressure are C floats; the code only passes them on, so they
  are kept in an uninterpreted type. The finger id is a signed 64-bit integer, which
  \<open>get_finger\<close> casts to \<open>int\<close>: the low 32 bits, read as a signed number.
\<close>

typedecl c_float

datatype SDL_WindowEventID =
    SDL_WINDOWEVENT_RESIZED
  | SDL_WINDOWEVENT_FOCUS_GAINED
  | SDL_WINDOWEVENT_FOCUS_LOST
  | SDL_WINDOWEVENT_OTHER

datatype SDL_Event =
    SDL_QUIT
  | SDL_WINDOWEVENT (window_event: SDL_WindowEventID) (window_data1: int) (window_data2: int)
  | SDL_KEYDOWN (key_sym: "32 word") (key_repeat: "8 word")
  | SDL_KEYUP (key_sym: "32 word") (key_repeat: "8 word")
  | SDL_TEXTINPUT
  | SDL_MOUSEMOTION (button_button: "8 word") (button_x: int) (button_y: int)
  | SDL_MOUSEBUTTONDOWN (button_button: "8 word") (button_x: int) (button_y: int)
  | SDL_MOUSEBUTTONUP (button_button: "8 word") (button_x: int) (button_y: int)
  | SDL_MOUSEWHEEL (button_button: "8 word") (button_x: int) (button_y: int)
  | SDL_JOYHATMOTION (jhat_hat: "8 word") (jhat_value: "8 word")
  | SDL_JOYBUTTONDOWN (jbutton_button: "8 word")
  | SDL_JOYBUTTONUP (jbutton_button: "8 word")
  | SDL_CONTROLLERAXISMOTION (c_which: int) (caxis_axis: "8 word") (caxis_value: "16 word")
  | SDL_CONTROLLERBUTTONDOWN (c_which: int) (cbutton_button: "8 word")
  | SDL_CONTROLLERBUTTONUP (c_which: int) (cbutton_button: "8 word")
  | SDL_CONTROLLERDEVICEADDED (c_which: int)
  | SDL_CONTROLLERDEVICEREMOVED (c_which: int)
  | SDL_CONTROLLERDEVICEREMAPPED (c_which: int)
  | SDL_FINGERDOWN (tfinger_fingerId: "64 word") (tfinger_x: c_float) (tfinger_y: c_float)
      (tfinger_pressure: c_float)
  | SDL_FINGERUP (tfinger_fingerId: "64 word") (tfinger_x: c_float) (tfinger_y: c_float)
      (tfinger_pressure: c_float)
  | SDL_FINGERMOTION (tfinger_fingerId: "64 word") (tfinger_x: c_float) (tfinger_y: c_float)
      (tfinger_pressure: c_float)
  | SDL_OTHER

subsection \<open>Enumerators declared outside the translated files\<close>

text \<open>
  The enumerations \<open>KeyboardKey\<close>, \<open>MouseButton\<close>, \<open>JoyPadButton\<close> and \<open>JoyPadAxis\<close> are
  declared in headers that are not part of the translated sources. Their values are
  integers (a keyboard key is the SDL key code it is cast from); the enumerators the
  code names are parameters of the model, together with the key set of the table
  \<open>EnumInfoTraits<KeyboardKey>::names\<close>.
\<close>

type_synonym KeyboardKey = "32 word"

record enumerators =
  KeyboardKey_NONE :: KeyboardKey
  KeyboardKey_RIGHT :: KeyboardKey
  KeyboardKey_UP :: KeyboardKey
  KeyboardKey_LEFT :: KeyboardKey
  KeyboardKey_DOWN :: KeyboardKey
  KeyboardKey_names :: "KeyboardKey list"
  MouseButton_NONE :: int
  JoyPadButton_INVALID :: int
  JoyPadAxis_INVALID :: int
  JoyPadAxis_LEFT_X :: int
  JoyPadAxis_RIGHT_X :: int

subsection \<open>Static state of the class\<close>

text \<open>
  The static members of \<open>InputEvent\<close> that the translated functions read or write, and
  the SDL event queue: \<open>SDL_PollEvent\<close> removes the event at the head and
  \<open>SDL_PushEvent\<close> adds one at the tail.
\<close>

record input_state =
  repeat_keyboard :: bool
  keys_pressed :: "32 word set"
  joypad_deadzone :: int
  jbuttons_pressed :: "8 word set"
  quit_combo :: "8 word set"
  sdl_queue :: "SDL_Event list"
  legacy_joypad_enabled :: bool

definition initial_input_state :: input_state where
  "initial_input_state =
     \<lparr>repeat_keyboard = False, keys_pressed = {}, joypad_deadzone = 500,
      jbuttons_pressed = {}, quit_combo = {}, sdl_queue = [],
      legacy_joypad_enabled = False\<rparr>"

subsection \<open>Event kinds\<close>

definition is_keyboard_event :: "input_state \<Rightarrow> SDL_Event \<Rightarrow> bool" where
  "is_keyboard_event g e =
     ((is_SDL_KEYDOWN e \<or> is_SDL_KEYUP e) \<and> (\<not> key_repeat e \<noteq> 0 \<or> repeat_keyboard g))"

definition is_mouse_event :: "SDL_Event \<Rightarrow> bool" where
  "is_mouse_event e =
     (is_SDL_MOUSEMOTION e \<or> is_SDL_MOUSEBUTTONDOWN e \<or> is_SDL_MOUSEBUTTONUP e
      \<or> is_SDL_MOUSEWHEEL e)"

definition is_finger_event :: "SDL_Event \<Rightarrow> bool" where
  "is_finger_event e = (is_SDL_FINGERMOTION e \<or> is_SDL_FINGERDOWN e \<or> is_SDL_FINGERUP e)"

text \<open>
  \<open>is_controller_event\<close> tests that the type code lies between
  \<open>SDL_CONTROLLERAXISMOTION\<close> and \<open>SDL_CONTROLLERDEVICEREMAPPED\<close>; the six controller
  event types are the codes of that range.
\<close>

definition is_controller_event :: "SDL_Event \<Rightarrow> bool" where
  "is_controller_event e =
     (is_SDL_CONTROLLERAXISMOTION e \<or> is_SDL_CONTROLLERBUTTONDOWN e
      \<or> is_SDL_CONTROLLERBUTTONUP e \<or> is_SDL_CONTROLLERDEVICEADDED e
      \<or> is_SDL_CONTROLLERDEVICEREMOVED e \<or> is_SDL_CONTROLLERDEVICEREMAPPED e)"

definition is_joypad_removed :: "SDL_Event \<Rightarrow> bool" where
  "is_joypad_removed e = is_SDL_CONTROLLERDEVICEREMOVED e"

definition is_joypad_added :: "SDL_Event \<Rightarrow> bool" where
  "is_joypad_added e = is_SDL_CONTROLLERDEVICEADDED e"

definition is_window_closing :: "SDL_Event \<Rightarrow> bool" where
  "is_window_closing e = (e = SDL_QUIT)"

definition is_window_resizing :: "SDL_Event \<Rightarrow> bool" where
  "is_window_resizing e = (is_SDL_WINDOWEVENT e \<and> window_event e = SDL_WINDOWEVENT_RESIZED)"

definition is_window_focus_lost :: "SDL_Event \<Rightarrow> bool" where
  "is_window_focus_lost e =
     (is_SDL_WINDOWEVENT e \<and> window_event e = SDL_WINDOWEVENT_FOCUS_LOST)"

definition is_window_focus_gained :: "SDL_Event \<Rightarrow> bool" where
  "is_window_focus_gained e =
     (is_SDL_WINDOWEVENT e \<and> window_event e = SDL_WINDOWEVENT_FOCUS_GAINED)"

definition get_window_size :: "SDL_Event \<Rightarrow> int \<times> int" where
  "get_window_size e = (window_data1 e, window_data2 e)"

subsection \<open>Keyboard\<close>

definition is_keyboard_key_pressed :: "input_state \<Rightarrow> SDL_Event \<Rightarrow> bool" where
  "is_keyboard_key_pressed g e =
     (is_SDL_KEYDOWN e \<and> (\<not> key_repeat e \<noteq> 0 \<or> repeat_keyboard g))"

definition get_keyboard_key :: "enumerators \<Rightarrow> input_state \<Rightarrow> SDL_Event \<Rightarrow> KeyboardKey" where
  "get_keyboard_key K g e =
     (if \<not> is_keyboard_event g e then KeyboardKey_NONE K
      else if key_sym e \<notin> set (KeyboardKey_names K) then KeyboardKey_NONE K
      else key_sym e)"

definition is_keyboard_key_pressed_key ::
  "enumerators \<Rightarrow> input_state \<Rightarrow> SDL_Event \<Rightarrow> KeyboardKey \<Rightarrow> bool" where
  "is_keyboard_key_pressed_key K g e key =
     (is_keyboard_key_pressed g e \<and> get_keyboard_key K g e = key)"

definition directional_keys :: "enumerators \<Rightarrow> KeyboardKey list" where
  "directional_keys K =
     [KeyboardKey_RIGHT K, KeyboardKey_UP K, KeyboardKey_LEFT K, KeyboardKey_DOWN K,
      KeyboardKey_NONE K]"

text \<open>
  The overload taking an array of keys walks it up to the terminating \<open>NONE\<close>. The
  array is a list here; the first equation is the end of a list without terminator,
  which the only caller never passes.
\<close>

fun is_keyboard_key_pressed_keys ::
  "enumerators \<Rightarrow> input_state \<Rightarrow> SDL_Event \<Rightarrow> KeyboardKey list \<Rightarrow> bool" where
  "is_keyboard_key_pressed_keys K g e [] = False"
| "is_keyboard_key_pressed_keys K g e (k # ks) =
     (if k = KeyboardKey_NONE K then False
      else if is_keyboard_key_pressed_key K g e k then True
      else is_keyboard_key_pressed_keys K g e ks)"

definition is_keyboard_direction_key_pressed ::
  "enumerators \<Rightarrow> input_state \<Rightarrow> SDL_Event \<Rightarrow> bool" where
  "is_keyboard_direction_key_pressed K g e =
     is_keyboard_key_pressed_keys K g e (directional_keys K)"

subsection \<open>Joypad buttons, axes and hats\<close>

definition is_joypad_button_pressed :: "SDL_Event \<Rightarrow> bool" where
  "is_joypad_button_pressed e = is_SDL_CONTROLLERBUTTONDOWN e"

definition is_joypad_button_released :: "SDL_Event \<Rightarrow> bool" where
  "is_joypad_button_released e = is_SDL_CONTROLLERBUTTONUP e"

definition get_joypad_button :: "enumerators \<Rightarrow> SDL_Event \<Rightarrow> int" where
  "get_joypad_button K e =
     (if \<not> is_joypad_button_pressed e \<and> \<not> is_joypad_button_released e
      then JoyPadButton_INVALID K
      else uint (cbutton_button e))"

definition is_joypad_axis_moved :: "SDL_Event \<Rightarrow> bool" where
  "is_joypad_axis_moved e = is_SDL_CONTROLLERAXISMOTION e"

definition get_joypad_axis :: "enumerators \<Rightarrow> SDL_Event \<Rightarrow> int" where
  "get_joypad_axis K e =
     (if \<not> is_joypad_axis_moved e then JoyPadAxis_INVALID K else uint (caxis_axis e))"

text \<open>
  The axis state is a C double. The raw value is a signed 16-bit integer, so
  \<open>double(value)\<close> is exact, and the quotient by 32767 or 32768 is the double nearest
  to the rational number computed here; the results 0, 1 and -1 are doubles themselves.
\<close>

definition get_joypad_axis_state :: "input_state \<Rightarrow> SDL_Event \<Rightarrow> rat" where
  "get_joypad_axis_state g e =
     (if \<not> is_joypad_axis_moved e then 0
      else
        let v = sint (caxis_value e) in
        if \<bar>v\<bar> < joypad_deadzone g then 0
        else if v > 0 then of_int v / 32767 else of_int v / 32768)"

definition is_joypad_axis_centered :: "input_state \<Rightarrow> SDL_Event \<Rightarrow> bool" where
  "is_joypad_axis_centered g e = (is_joypad_axis_moved e \<and> get_joypad_axis_state g e = 0)"

definition is_joypad_hat_moved :: "SDL_Event \<Rightarrow> bool" where
  "is_joypad_hat_moved e = False"

definition get_joypad_hat :: "SDL_Event \<Rightarrow> int" where
  "get_joypad_hat e = (if \<not> is_joypad_hat_moved e then - 1 else uint (jhat_hat e))"

text \<open>
  The SDL hat positions are bit masks: up 1, right 2, down 4, left 8, and their sums
  for the diagonals.
\<close>

definition get_joypad_hat_direction :: "SDL_Event \<Rightarrow> int" where
  "get_joypad_hat_direction e =
     (if \<not> is_joypad_hat_moved e then - 1
      else
        let v = jhat_value e in
        if v = 2 then 0
        else if v = 3 then 1
        else if v = 1 then 2
        else if v = 9 then 3
        else if v = 8 then 4
        else if v = 12 then 5
        else if v = 4 then 6
        else if v = 6 then 7
        else - 1)"

definition is_joypad_hat_centered :: "SDL_Event \<Rightarrow> bool" where
  "is_joypad_hat_centered e = (is_joypad_hat_moved e \<and> get_joypad_hat_direction e = - 1)"

subsection \<open>Direction of an event\<close>

definition get_direction :: "enumerators \<Rightarrow> input_state \<Rightarrow> SDL_Event \<Rightarrow> int" where
  "get_direction K g e =
     (if is_keyboard_direction_key_pressed K g e then
        (let k = get_keyboard_key K g e in
         if k = KeyboardKey_RIGHT K then 0
         else if k = KeyboardKey_UP K then 2
         else if k = KeyboardKey_LEFT K then 4
         else if k = KeyboardKey_DOWN K then 6
         else - 1)
      else if is_joypad_axis_moved e \<and> \<not> is_joypad_axis_centered g e then
        (let axis = get_joypad_axis K e in
         if axis = JoyPadAxis_LEFT_X K \<or> axis = JoyPadAxis_RIGHT_X K
         then (if get_joypad_axis_state g e > 0 then 0 else 4)
         else (if get_joypad_axis_state g e > 0 then 6 else 2))
      else if is_joypad_hat_moved e then get_joypad_hat_direction e
      else - 1)"

subsection \<open>Mouse, finger and the precondition macros (include/solarus/core/Debug.h)\<close>

text \<open>
  \<open>Debug::die\<close> never returns (it is declared \<open>[[noreturn]]\<close>). A function that may
  call it returns a sum: \<open>Inl message\<close> when the program stops with that message,
  \<open>Inr value\<close> when the function returns. The two macros are functions of the build:
  \<open>NDEBUG\<close> is true in an optimized build. \<open>SOLARUS_REQUIRE\<close> is defined outside the
  \<open>#ifndef NDEBUG\<close> block and expands to the same test in both builds;
  \<open>SOLARUS_ASSERT\<close> is \<open>SOLARUS_REQUIRE\<close> in a debug build and \<open>(void)0\<close> otherwise.
\<close>

definition SOLARUS_REQUIRE :: "bool \<Rightarrow> bool \<Rightarrow> string \<Rightarrow> string + unit" where
  "SOLARUS_REQUIRE NDEBUG condition message = (if condition then Inr () else Inl message)"

definition SOLARUS_ASSERT :: "bool \<Rightarrow> bool \<Rightarrow> string \<Rightarrow> string + unit" where
  "SOLARUS_ASSERT NDEBUG condition message =
     (if \<not> NDEBUG then SOLARUS_REQUIRE NDEBUG condition message else Inr ())"

text \<open>
  What the position accessors take from the video module and from C float arithmetic:
  the conversion of output coordinates to quest coordinates, the output size, and the
  product of a float by an integer size converted to \<open>int\<close>.
\<close>

record video =
  output_to_quest_coordinates :: "int \<times> int \<Rightarrow> int \<times> int"
  get_output_size :: "int \<times> int"
  float_times_size :: "c_float \<Rightarrow> int \<Rightarrow> int"

definition get_mouse_button :: "enumerators \<Rightarrow> SDL_Event \<Rightarrow> int" where
  "get_mouse_button K e =
     (if \<not> is_mouse_event e then MouseButton_NONE K else uint (button_button e))"

definition get_mouse_position :: "bool \<Rightarrow> video \<Rightarrow> SDL_Event \<Rightarrow> string + (int \<times> int)" where
  "get_mouse_position NDEBUG V e =
     (case SOLARUS_REQUIRE NDEBUG (is_mouse_event e) ''Event is not a mouse event'' of
        Inl message \<Rightarrow> Inl message
      | Inr _ \<Rightarrow> Inr (output_to_quest_coordinates V (button_x e, button_y e)))"

definition get_finger :: "bool \<Rightarrow> SDL_Event \<Rightarrow> string + int" where
  "get_finger NDEBUG e =
     (case SOLARUS_REQUIRE NDEBUG (is_finger_event e) ''Event is not a touch finger event'' of
        Inl message \<Rightarrow> Inl message
      | Inr _ \<Rightarrow> Inr (sint (ucast (tfinger_fingerId e) :: 32 word)))"

definition get_finger_position :: "bool \<Rightarrow> video \<Rightarrow> SDL_Event \<Rightarrow> string + (int \<times> int)" where
  "get_finger_position NDEBUG V e =
     (case SOLARUS_REQUIRE NDEBUG (is_finger_event e) ''Event is not a touch finger event'' of
        Inl message \<Rightarrow> Inl message
      | Inr _ \<Rightarrow>
          (let output_size = get_output_size V;
               x = float_times_size V (tfinger_x e) (fst output_size);
               y = float_times_size V (tfinger_y e) (snd output_size)
           in Inr (output_to_quest_coordinates V (x, y))))"

definition get_finger_pressure :: "bool \<Rightarrow> SDL_Event \<Rightarrow> string + c_float" where
  "get_finger_pressure NDEBUG e =
     (case SOLARUS_REQUIRE NDEBUG (is_finger_event e) ''Event is not a touch finger event'' of
        Inl message \<Rightarrow> Inl message
      | Inr _ \<Rightarrow> Inr (tfinger_pressure e))"

subsection \<open>Polling the queue\<close>

definition simulate_window_closing :: "input_state \<Rightarrow> input_state" where
  "simulate_window_closing g = g\<lparr>sdl_queue := sdl_queue g @ [SDL_QUIT]\<rparr>"

text \<open>
  \<open>get_event\<close> returns the wrapped event, or \<open>None\<close> for the null pointer when the
  queue is empty. \<open>std::set::insert\<close> reports whether the key was new and
  \<open>std::set::erase\<close> how many keys it removed; both leave the set as it is in the
  branch that forces the repeat flag. The mouse capture calls of the two mouse button
  cases act on the SDL window only and are left out.
\<close>

definition get_event :: "input_state \<Rightarrow> SDL_Event option \<times> input_state" where
  "get_event g =
     (case sdl_queue g of
        [] \<Rightarrow> (None, g)
      | internal_event # rest \<Rightarrow>
          (let g = g\<lparr>sdl_queue := rest\<rparr> in
           case internal_event of
             SDL_KEYDOWN key r \<Rightarrow>
               if key \<in> keys_pressed g then (Some (SDL_KEYDOWN key 1), g)
               else (Some internal_event, g\<lparr>keys_pressed := insert key (keys_pressed g)\<rparr>)
           | SDL_KEYUP key r \<Rightarrow>
               if key \<notin> keys_pressed g then (Some (SDL_KEYUP key 1), g)
               else (Some internal_event, g\<lparr>keys_pressed := keys_pressed g - {key}\<rparr>)
           | SDL_JOYBUTTONDOWN button \<Rightarrow>
               (let g = g\<lparr>jbuttons_pressed := insert button (jbuttons_pressed g)\<rparr> in
                if jbuttons_pressed g = quit_combo g
                then (Some internal_event, simulate_window_closing g)
                else (Some internal_event, g))
           | SDL_JOYBUTTONUP button \<Rightarrow>
               (Some internal_event, g\<lparr>jbuttons_pressed := jbuttons_pressed g - {button}\<rparr>)
           | _ \<Rightarrow> (Some internal_event, g)))"

section \<open>The main loop (src/core/MainLoop.cpp)\<close>

subsection \<open>Collaborators\<close>

text \<open>
  The game, the Lua context, the video, audio and logging modules are outside the
  translated files. Every call the main loop makes to them is a value of \<open>call\<close>.
  What a call does is a parameter of the model: from the collaborators' own state
  (the type variable \<open>'w\<close>) it gives the boolean the call returns (ignored for a
  \<open>void\<close> function), the calls it makes back to the public setters of the main loop,
  and the collaborators' new state. \<open>Event_notify_joypad\<close> is
  \<open>InputEvent::notify_joypad\<close>, which forwards to the Lua joypad callbacks and keeps
  the joypad registry; it is a call that returns, so an event about a joypad that is not
  in the registry, for which \<open>joypads.at\<close> throws, is outside the model. A joypad is
  named by the event it comes from: \<open>Of_event\<close> is \<open>event.get_joypad()\<close> and
  \<open>Other_than\<close> is \<open>InputEvent::other_joypad(event.get_joypad())\<close>. \<open>Joypad_exists\<close>
  tests such a pointer against null; \<open>Controls_joypad_is\<close> and \<open>Controls_has_joypad\<close>
  read the game's primary joypad, \<open>Controls_set_joypad\<close> writes it, and
  \<open>Logger_info_using_joystick\<close> is \<open>Logger::info\<close> with the message made of the
  joypad's name. Locking and unlocking the mutex of the command
  list is recorded as a call too, with no effect on the collaborators and \<open>False\<close> for
  the result it does not have.
\<close>

datatype joypad_ref =
    Of_event SDL_Event
  | Other_than SDL_Event

datatype call =
    Game_update
  | Lua_update
  | System_update "64 word"
  | Game_start
  | Lua_exit
  | Lua_initialize
  | Music_stop_playing
  | Root_surface_clear
  | Video_clear_screen_surface
  | Game_draw
  | Lua_main_on_draw
  | Video_render
  | Lua_video_on_draw
  | Video_finish
  | System_sleep "32 word"
  | Video_on_window_resized "int \<times> int"
  | Make_root_surface
  | Game_notify_window_size_changed "int \<times> int"
  | Logger_info string
  | Cout string
  | Sound_pause_all
  | Music_pause_playing
  | Music_resume_playing
  | Sound_resume_all
  | Controls_joypad_is SDL_Event
  | Joypad_exists joypad_ref
  | Logger_info_using_joystick joypad_ref
  | Controls_set_joypad joypad_ref
  | Event_notify_joypad SDL_Event
  | Controls_has_joypad
  | Lua_notify_input SDL_Event
  | Game_notify_input SDL_Event
  | Commands_dispatcher_notify_input SDL_Event
  | Lua_do_string string
  | Mutex_lock
  | Mutex_unlock

datatype request =
    Set_exiting
  | Set_suspended bool
  | Set_game "nat option"

type_synonym 'w collaborators = "call \<Rightarrow> 'w \<Rightarrow> bool \<times> request list \<times> 'w"

subsection \<open>State of the main loop\<close>

text \<open>
  The members of \<open>MainLoop\<close> that the translated functions use. A game is known by a
  number, \<open>None\<close> is the null pointer. The counters are C \<open>int\<close>s, taken as unbounded
  integers: an overflow is undefined behaviour in the source and needs more than
  two thousand million commands. \<open>calls\<close> is the log of the calls made so far, oldest
  first, each with the boolean it returned; it is not a member of the class.
\<close>

record 'w main_loop =
  game :: "nat option"
  next_game :: "nat option"
  exiting :: bool
  debug_lag :: int
  lua_console_enabled :: bool
  suspend_unfocused :: bool
  suspended :: bool
  turbo :: bool
  lua_commands :: "string list"
  num_lua_commands_pushed :: int
  num_lua_commands_done :: int
  world :: 'w
  calls :: "(call \<times> bool) list"

definition set_exiting :: "'w main_loop \<Rightarrow> 'w main_loop" where
  "set_exiting s = s\<lparr>exiting := True\<rparr>"

definition set_suspended :: "bool \<Rightarrow> 'w main_loop \<Rightarrow> 'w main_loop" where
  "set_suspended b s = (if b \<noteq> suspended s then s\<lparr>suspended := b\<rparr> else s)"

definition set_game :: "nat option \<Rightarrow> 'w main_loop \<Rightarrow> 'w main_loop" where
  "set_game g s = s\<lparr>next_game := g\<rparr>"

fun apply_request :: "'w main_loop \<Rightarrow> request \<Rightarrow> 'w main_loop" where
  "apply_request s Set_exiting = set_exiting s"
| "apply_request s (Set_suspended b) = set_suspended b s"
| "apply_request s (Set_game g) = set_game g s"

definition record_call :: "call \<Rightarrow> bool \<Rightarrow> 'w main_loop \<Rightarrow> 'w main_loop" where
  "record_call c r s = s\<lparr>calls := calls s @ [(c, r)]\<rparr>"

definition invoke :: "'w collaborators \<Rightarrow> call \<Rightarrow> 'w main_loop \<Rightarrow> bool \<times> 'w main_loop" where
  "invoke ext c s =
     (case ext c (world s) of
        (r, requests, w) \<Rightarrow> (r, foldl apply_request (record_call c r (s\<lparr>world := w\<rparr>)) requests))"

definition perform :: "'w collaborators \<Rightarrow> call \<Rightarrow> 'w main_loop \<Rightarrow> 'w main_loop" where
  "perform ext c s = snd (invoke ext c s)"

subsection \<open>The command list\<close>

text \<open>\<open>String::to_string\<close> on an \<open>int\<close>: the decimal digits, with a sign when negative.\<close>

fun digits :: "nat \<Rightarrow> string" where
  "digits n =
     (if n < 10 then [char_of (48 + n)] else digits (n div 10) @ [char_of (48 + n mod 10)])"

definition to_string :: "int \<Rightarrow> string" where
  "to_string i = (if i < 0 then CHR ''-'' # digits (nat (- i)) else digits (nat i))"

definition push_lua_command :: "string \<Rightarrow> 'w main_loop \<Rightarrow> int \<times> 'w main_loop" where
  "push_lua_command command s =
     (let s = record_call Mutex_lock False s;
          s = s\<lparr>lua_commands := lua_commands s @ [command]\<rparr>;
          result = num_lua_commands_pushed s;
          s = s\<lparr>num_lua_commands_pushed := num_lua_commands_pushed s + 1\<rparr>;
          s = record_call Mutex_unlock False s
      in (result, s))"

text \<open>The body of the loop over the pending commands.\<close>

definition run_lua_command :: "'w collaborators \<Rightarrow> 'w main_loop \<Rightarrow> string \<Rightarrow> 'w main_loop" where
  "run_lua_command ext s command =
     (let s = perform ext (Cout [char_of (10 :: nat)]) s;
          s = perform ext (Logger_info (''====== Begin Lua command #''
                @ to_string (num_lua_commands_done s) @ '' ======'')) s;
          (success, s) = invoke ext (Lua_do_string command) s;
          s = perform ext (Cout [char_of (10 :: nat)]) s;
          s = (if success
               then perform ext (Logger_info (''====== End Lua command #''
                      @ to_string (num_lua_commands_done s) @ '': success ======'')) s
               else perform ext (Logger_info (''====== End Lua command #''
                      @ to_string (num_lua_commands_done s) @ '': error ======'')) s)
      in s\<lparr>num_lua_commands_done := num_lua_commands_done s + 1\<rparr>)"

text \<open>
  The second half of \<open>check_input\<close>. The lock is taken before the loop and released
  when the block ends, after the list is cleared. No call of a collaborator reaches
  \<open>push_lua_command\<close> and the other thread waits for the lock, so the list does not
  change while the loop runs.
\<close>

definition run_lua_commands :: "'w collaborators \<Rightarrow> 'w main_loop \<Rightarrow> 'w main_loop" where
  "run_lua_commands ext s =
     (if lua_console_enabled s \<and> lua_commands s \<noteq> [] then
        (let s = record_call Mutex_lock False s;
             s = foldl (run_lua_command ext) s (lua_commands s);
             s = s\<lparr>lua_commands := []\<rparr>;
             s = record_call Mutex_unlock False s
         in s)
      else s)"

subsection \<open>Dispatching one event\<close>

text \<open>
  \<open>notify_input\<close>, in two definitions: \<open>notify_input_window\<close> is the chain of
  \<open>if\<close> and \<open>else if\<close> that opens the function and gives \<open>handled\<close> its value,
  \<open>notify_input\<close> goes on with the three sends that close it. The key-pressed branch
  is empty (its body is compiled for one handheld target only). \<open>&&\<close> evaluates from the left, so a read
  of the game's joypad is made only when the tests before it hold.
\<close>

definition notify_input_window ::
  "'w collaborators \<Rightarrow> input_state \<Rightarrow> SDL_Event \<Rightarrow> 'w main_loop \<Rightarrow> bool \<times> 'w main_loop" where
  "notify_input_window ext g event s =
     (if is_window_closing event then (False, set_exiting s)
      else if is_window_resizing event then
        (let s = perform ext (Video_on_window_resized (get_window_size event)) s;
             s = perform ext Make_root_surface s;
             s = (if game s \<noteq> None
                  then perform ext (Game_notify_window_size_changed (get_window_size event)) s
                  else s)
         in (False, s))
      else if suspend_unfocused s \<and> is_window_focus_lost event then
        (if \<not> suspended s then
           (let s = perform ext (Logger_info ''Simulation suspended'') s;
                s = set_suspended True s;
                s = perform ext Sound_pause_all s;
                s = perform ext Music_pause_playing s
            in (False, s))
         else (False, s))
      else if suspend_unfocused s \<and> is_window_focus_gained event then
        (if suspended s then
           (let s = perform ext (Logger_info ''Simulation resumed'') s;
                s = set_suspended False s;
                s = perform ext Music_resume_playing s;
                s = perform ext Sound_resume_all s
            in (False, s))
         else (False, s))
      else if is_keyboard_key_pressed g event then (False, s)
      else if is_controller_event event then
        (let s = (if legacy_joypad_enabled g \<and> is_joypad_removed event \<and> game s \<noteq> None then
                    (case invoke ext (Controls_joypad_is event) s of
                       (same, s) \<Rightarrow>
                         if same then
                           (case invoke ext (Joypad_exists (Other_than event)) s of
                              (new_joy, s) \<Rightarrow>
                                (let s = (if new_joy
                                          then perform ext
                                                 (Logger_info_using_joystick (Other_than event)) s
                                          else s)
                                 in perform ext (Controls_set_joypad (Other_than event)) s))
                         else s)
                  else s);
             (handled, s) = invoke ext (Event_notify_joypad event) s;
             s = (if legacy_joypad_enabled g \<and> is_joypad_added event \<and> game s \<noteq> None then
                    (case invoke ext Controls_has_joypad s of
                       (has, s) \<Rightarrow>
                         if \<not> has then
                           (case invoke ext (Joypad_exists (Of_event event)) s of
                              (new_joy, s) \<Rightarrow>
                                (let s = (if new_joy
                                          then perform ext
                                                 (Logger_info_using_joystick (Of_event event)) s
                                          else s)
                                 in perform ext (Controls_set_joypad (Of_event event)) s))
                         else s)
                  else s)
         in (handled, s))
      else (False, s))"

definition notify_input ::
  "'w collaborators \<Rightarrow> input_state \<Rightarrow> SDL_Event \<Rightarrow> 'w main_loop \<Rightarrow> 'w main_loop" where
  "notify_input ext g event s =
     (let (handled, s) = notify_input_window ext g event s;
          (handled, s) =
            (if \<not> handled then invoke ext (Lua_notify_input event) s else (handled, s));
          (handled, s) =
            (if \<not> handled \<and> game s \<noteq> None then invoke ext (Game_notify_input event) s
             else (handled, s))
      in if \<not> handled then perform ext (Commands_dispatcher_notify_input event) s else s)"

subsection \<open>Checking the input\<close>

text \<open>
  The first half of \<open>check_input\<close> polls until the queue is empty. The queue only
  changes through \<open>get_event\<close> here: the collaborators post no SDL event. An event taken
  from the queue is gone, and only a joypad button press can add one (the simulated
  window closing), so the loop ends.
\<close>

definition queue_weight :: "input_state \<Rightarrow> nat" where
  "queue_weight g = length (sdl_queue g) + length (filter is_SDL_JOYBUTTONDOWN (sdl_queue g))"

lemma get_event_Nil: "sdl_queue g = [] \<Longrightarrow> get_event g = (None, g)"
  by (simp add: get_event_def)

lemma get_event_queue:
  "sdl_queue g = ev # rest \<Longrightarrow>
   fst (get_event g) \<noteq> None \<and>
   sdl_queue (snd (get_event g)) =
     (if is_SDL_JOYBUTTONDOWN ev \<and> insert (jbutton_button ev) (jbuttons_pressed g) = quit_combo g
      then rest @ [SDL_QUIT] else rest)"
  by (cases ev) (simp_all add: get_event_def simulate_window_closing_def Let_def)

lemma get_event_weight:
  "get_event g = (Some e, g') \<Longrightarrow> queue_weight g' < queue_weight g"
proof (cases "sdl_queue g")
  case Nil
  assume "get_event g = (Some e, g')"
  with Nil show ?thesis by (simp add: get_event_Nil)
next
  case (Cons ev rest)
  assume a: "get_event g = (Some e, g')"
  from get_event_queue [OF Cons] a
  have "sdl_queue g' =
     (if is_SDL_JOYBUTTONDOWN ev \<and> insert (jbutton_button ev) (jbuttons_pressed g) = quit_combo g
      then rest @ [SDL_QUIT] else rest)" by simp
  with Cons show ?thesis
    by (simp add: queue_weight_def)
qed

function poll_events ::
  "'w collaborators \<Rightarrow> input_state \<Rightarrow> 'w main_loop \<Rightarrow> input_state \<times> 'w main_loop" where
  "poll_events ext g s =
     (case get_event g of
        (None, g') \<Rightarrow> (g', s)
      | (Some event, g') \<Rightarrow> poll_events ext g' (notify_input ext g' event s))"
  by pat_completeness auto
termination
  by (relation "measure (\<lambda>(ext, g, s). queue_weight g)") (auto dest: get_event_weight [OF sym])

definition check_input ::
  "'w collaborators \<Rightarrow> input_state \<Rightarrow> 'w main_loop \<Rightarrow> input_state \<times> 'w main_loop" where
  "check_input ext g s =
     (case poll_events ext g s of (g, s) \<Rightarrow> (g, run_lua_commands ext s))"

subsection \<open>One simulation step and one drawing\<close>

definition step :: "'w collaborators \<Rightarrow> 64 word \<Rightarrow> 'w main_loop \<Rightarrow> 'w main_loop" where
  "step ext timestep_ns s =
     (let s = (if game s \<noteq> None then perform ext Game_update s else s);
          s = perform ext Lua_update s;
          s = perform ext (System_update timestep_ns) s
      in if next_game s \<noteq> game s then
           (let s = s\<lparr>game := next_game s\<rparr> in
            if game s \<noteq> None then perform ext Game_start s
            else
              (let s = perform ext Lua_exit s;
                   s = perform ext Lua_initialize s
               in perform ext Music_stop_playing s))
         else s)"

definition draw :: "'w collaborators \<Rightarrow> 'w main_loop \<Rightarrow> 'w main_loop" where
  "draw ext s =
     (let s = perform ext Root_surface_clear s;
          s = perform ext Video_clear_screen_surface s;
          s = (if game s \<noteq> None then perform ext Game_draw s else s);
          s = perform ext Lua_main_on_draw s;
          s = perform ext Video_render s;
          s = perform ext Lua_video_on_draw s
      in perform ext Video_finish s)"

subsection \<open>Fixed timestep\<close>

text \<open>
  The locals of \<open>fixed_run\<close> that live across frames (\<open>dynamic_run\<close> has a
  \<open>last_frame_date\<close> too, hence the common base record). \<open>last_frame_date\<close> is a
  \<open>uint64_t\<close>; \<open>lag\<close> and \<open>time_dropped\<close> are \<open>int64_t\<close>. All three are 64-bit words;
  the two tests on \<open>lag\<close> compare signed values, so they read the word with \<open>sint\<close>,
  and a sum or difference of a signed and an unsigned operand is the sum or difference
  of the words.
\<close>

record loop_vars =
  last_frame_date :: "64 word"

record fixed_vars = loop_vars +
  lag :: "64 word"
  time_dropped :: "64 word"

definition fixed_timestep_ns :: "64 word" where
  "fixed_timestep_ns = 10000000"

text \<open>
  The clock is read three times in a frame: \<open>get_real_time_ns\<close> at the top, again
  in the branch of the huge lag, and \<open>get_real_time_ms\<close> before the last sleep.
\<close>

record frame_clock =
  real_time_ns_top :: "64 word"
  real_time_ns_huge_lag :: "64 word"
  real_time_ms_end :: "32 word"

text \<open>The top of the loop body, up to the end of the huge lag branch.\<close>

definition measure_lag :: "frame_clock \<Rightarrow> fixed_vars \<Rightarrow> fixed_vars" where
  "measure_lag clk v =
     (let now = real_time_ns_top clk - time_dropped v;
          last_frame_duration = now - last_frame_date v;
          v = v\<lparr>last_frame_date := now\<rparr>;
          v = v\<lparr>lag := lag v + last_frame_duration\<rparr>
      in if 200000000 \<le> sint (lag v) then
           (let v = v\<lparr>time_dropped := time_dropped v + (lag v - fixed_timestep_ns)\<rparr>;
                v = v\<lparr>lag := fixed_timestep_ns\<rparr>
            in v\<lparr>last_frame_date := real_time_ns_huge_lag clk - time_dropped v\<rparr>)
         else v)"

text \<open>The lag right after \<open>lag += last_frame_duration\<close>, before the test of the huge lag.\<close>

definition accumulated_lag :: "frame_clock \<Rightarrow> fixed_vars \<Rightarrow> 64 word" where
  "accumulated_lag clk v =
     lag v + (real_time_ns_top clk - time_dropped v - last_frame_date v)"

text \<open>
  The catch-up loop, on the lag, the number of updates of this frame and the state of
  the main loop. At most ten updates are counted, which bounds the recursion.
\<close>

function catch_up ::
  "'w collaborators \<Rightarrow> 64 word \<Rightarrow> nat \<Rightarrow> 'w main_loop \<Rightarrow> 64 word \<times> nat \<times> 'w main_loop" where
  "catch_up ext lg num_updates s =
     (if sint fixed_timestep_ns \<le> sint lg \<and> num_updates < 10
         \<and> \<not> exiting s \<and> \<not> suspended s
      then catch_up ext (lg - fixed_timestep_ns) (num_updates + 1) (step ext fixed_timestep_ns s)
      else (lg, num_updates, s))"
  by pat_completeness auto
termination
  by (relation "measure (\<lambda>(ext, lg, num_updates, s). 10 - num_updates)") auto

text \<open>
  One iteration of the \<open>while\<close> loop of \<open>fixed_run\<close>: the new locals, the number of
  updates made, the input state and the main loop.
\<close>

definition fixed_frame ::
  "'w collaborators \<Rightarrow> frame_clock \<Rightarrow> fixed_vars \<Rightarrow> input_state \<Rightarrow> 'w main_loop \<Rightarrow>
   fixed_vars \<times> nat \<times> input_state \<times> 'w main_loop" where
  "fixed_frame ext clk v g s =
     (let v = measure_lag clk v;
          (g, s) = check_input ext g s;
          (lg, num_updates, s) =
            (if turbo s \<and> \<not> suspended s
             then (lag v - fixed_timestep_ns, 1, step ext fixed_timestep_ns s)
             else (lag v, 0, s));
          (lg, num_updates, s) = catch_up ext lg num_updates s;
          v = v\<lparr>lag := lg\<rparr>;
          s = (if num_updates > 0 \<and> \<not> suspended s then draw ext s else s);
          s = (if debug_lag s > 0 \<and> \<not> turbo s \<and> \<not> suspended s
               then perform ext (System_sleep (word_of_int (debug_lag s div 1000000))) s
               else s);
          last_frame_duration = (ucast (real_time_ms_end clk) - time_dropped v) - last_frame_date v;
          s = (if last_frame_duration < fixed_timestep_ns \<and> \<not> turbo s
               then perform ext
                      (System_sleep (ucast ((fixed_timestep_ns - last_frame_duration) div 1000000))) s
               else s)
      in (v, num_updates, g, s))"

text \<open>
  \<open>fixed_run\<close> repeats the frame until the main loop is exiting. The clock readings
  come from outside, one record for each frame; the run over a finite list of them is
  the run of the loop for that many frames.
\<close>

fun fixed_run ::
  "'w collaborators \<Rightarrow> frame_clock list \<Rightarrow> fixed_vars \<Rightarrow> input_state \<Rightarrow> 'w main_loop \<Rightarrow>
   fixed_vars \<times> input_state \<times> 'w main_loop" where
  "fixed_run ext [] v g s = (v, g, s)"
| "fixed_run ext (clk # clks) v g s =
     (if exiting s then (v, g, s)
      else case fixed_frame ext clk v g s of (v, n, g, s) \<Rightarrow> fixed_run ext clks v g s)"

subsection \<open>Dynamic timestep\<close>

text \<open>
  \<open>delta_buffer * delta_buffer_spill\<close> multiplies an \<open>int64_t\<close> by the \<open>float\<close>
  \<open>0.01f\<close>: the integer is converted to \<open>float\<close>, the product is a \<open>float\<close>, and the
  initialisation of \<open>spill\<close> truncates it towards zero. With IEEE single precision
  evaluated as such (24 significant bits, round to nearest, ties to even) the constant
  \<open>0.01f\<close> is \<open>10737418 / 2 ^ 30\<close>, the converted integer is \<open>round_to_float\<close> of it,
  and the product is \<open>round_to_float\<close> of the integer product, over \<open>2 ^ 30\<close>; the
  magnitudes of a 64-bit integer stay far from the exponent limits.
\<close>

function significant_bits :: "int \<Rightarrow> nat" where
  "significant_bits n = (if n \<le> 0 then 0 else Suc (significant_bits (n div 2)))"
  by pat_completeness auto
termination
  by (relation "measure nat") auto

declare significant_bits.simps [simp del]

definition round_to_float :: "int \<Rightarrow> int" where
  "round_to_float n =
     (let a = \<bar>n\<bar>; e = significant_bits a - 24 in
      if e = 0 then n
      else
        (let q = a div 2 ^ e; r = a mod 2 ^ e;
             q' = (if 2 * r > 2 ^ e \<or> (2 * r = 2 ^ e \<and> odd q) then q + 1 else q)
         in sgn n * (q' * 2 ^ e)))"

definition spill_of :: "64 word \<Rightarrow> 64 word" where
  "spill_of delta_buffer =
     (let product = round_to_float (round_to_float (sint delta_buffer) * 10737418)
      in word_of_int (sgn product * (\<bar>product\<bar> div 2 ^ 30)))"

record dynamic_vars = loop_vars +
  delta_buffer :: "64 word"

text \<open>
  What a frame reads from outside: the clock and \<open>Video::get_display_period_ns\<close>,
  whose result is stored in an \<open>int64_t\<close>.
\<close>

record dynamic_clock =
  real_time_ns :: "64 word"
  display_period_ns :: "64 word"

text \<open>
  The five numbers of the debug line at the end of the measured branch, in its order;
  \<open>report_delta_buffer\<close> is the buffer after the update.
\<close>

record frame_report =
  report_perfect_frame_duration :: "64 word"
  report_last_frame_duration :: "64 word"
  report_smoothed_duration :: "64 word"
  report_delta_buffer :: "64 word"
  report_spill :: "64 word"

text \<open>
  One iteration of the loop of \<open>dynamic_run\<close>. The durations are \<open>int64_t\<close>, compared as
  signed numbers. A frame that finds the loop exiting or suspended sleeps and reports
  nothing.
\<close>

definition dynamic_frame ::
  "'w collaborators \<Rightarrow> dynamic_clock \<Rightarrow> dynamic_vars \<Rightarrow> input_state \<Rightarrow> 'w main_loop \<Rightarrow>
   dynamic_vars \<times> frame_report option \<times> input_state \<times> 'w main_loop" where
  "dynamic_frame ext clk v g s =
     (let (g, s) = check_input ext g s in
      if \<not> exiting s \<and> \<not> suspended s then
        (let now = real_time_ns clk;
             last_frame_duration = now - last_frame_date v;
             used_last_frame_duration = last_frame_duration;
             v = v\<lparr>last_frame_date := now\<rparr>;
             perfect_frame_duration = display_period_ns clk;
             used_last_frame_duration =
               (if sint (perfect_frame_duration * 5) < sint last_frame_duration
                then perfect_frame_duration else used_last_frame_duration);
             spill = spill_of (delta_buffer v);
             smoothed_duration = perfect_frame_duration + spill;
             v = v\<lparr>delta_buffer := delta_buffer v + (used_last_frame_duration - smoothed_duration)\<rparr>;
             s = step ext smoothed_duration s;
             s = draw ext s
         in (v,
             Some \<lparr>report_perfect_frame_duration = perfect_frame_duration,
                   report_last_frame_duration = last_frame_duration,
                   report_smoothed_duration = smoothed_duration,
                   report_delta_buffer = delta_buffer v,
                   report_spill = spill\<rparr>,
             g, s))
      else (v, None, g, perform ext (System_sleep (ucast (fixed_timestep_ns div 1000000))) s))"

text \<open>
  \<open>dynamic_run\<close> over the readings of as many frames, collecting the reports. The
  buffer is 0 when the loop starts.
\<close>

fun dynamic_frames ::
  "'w collaborators \<Rightarrow> dynamic_clock list \<Rightarrow> dynamic_vars \<Rightarrow> input_state \<Rightarrow> 'w main_loop \<Rightarrow>
   frame_report list \<times> dynamic_vars \<times> input_state \<times> 'w main_loop" where
  "dynamic_frames ext [] v g s = ([], v, g, s)"
| "dynamic_frames ext (clk # clks) v g s =
     (if exiting s then ([], v, g, s)
      else case dynamic_frame ext clk v g s of
        (v, r, g, s) \<Rightarrow>
          (case dynamic_frames ext clks v g s of
             (rs, v, g, s) \<Rightarrow> ((case r of None \<Rightarrow> [] | Some x \<Rightarrow> [x]) @ rs, v, g, s)))"

definition dynamic_run ::
  "'w collaborators \<Rightarrow> 64 word \<Rightarrow> dynamic_clock list \<Rightarrow> input_state \<Rightarrow> 'w main_loop \<Rightarrow>
   frame_report list \<times> dynamic_vars \<times> input_state \<times> 'w main_loop" where
  "dynamic_run ext start_time_ns clks g s =
     dynamic_frames ext clks \<lparr>last_frame_date = start_time_ns, delta_buffer = 0\<rparr> g s"

declare catch_up.simps [simp del]
declare digits.simps [simp del]
declare poll_events.simps [simp del]

section \<open>Views of the call log\<close>

text \<open>
  \<open>lock_and_run\<close> keeps, of a log, the locks, the unlocks and the Lua commands run, in
  their order. \<open>calls_added s s'\<close> is what the log of \<open>s'\<close> has after the length of
  the log of \<open>s\<close>: the calls made on the way from \<open>s\<close> to \<open>s'\<close>. \<open>is_send\<close> holds of
  the three sends that close \<open>notify_input\<close>, and \<open>no_send_since l\<close> of a main loop whose
  log is \<open>l\<close> followed by calls that are none of them.
\<close>

definition is_lock_or_run :: "call \<Rightarrow> bool" where
  "is_lock_or_run c =
     (case c of Mutex_lock \<Rightarrow> True | Mutex_unlock \<Rightarrow> True | Lua_do_string command \<Rightarrow> True
      | _ \<Rightarrow> False)"

definition lock_and_run :: "(call \<times> bool) list \<Rightarrow> call list" where
  "lock_and_run cs = filter is_lock_or_run (map fst cs)"

definition is_send :: "call \<Rightarrow> bool" where
  "is_send c =
     (case c of Lua_notify_input e \<Rightarrow> True | Game_notify_input e \<Rightarrow> True
      | Commands_dispatcher_notify_input e \<Rightarrow> True | _ \<Rightarrow> False)"

definition calls_added :: "'w main_loop \<Rightarrow> 'w main_loop \<Rightarrow> (call \<times> bool) list" where
  "calls_added s s' = drop (length (calls s)) (calls s')"

definition no_send_since :: "(call \<times> bool) list \<Rightarrow> 'w main_loop \<Rightarrow> bool" where
  "no_send_since l s =
     (take (length l) (calls s) = l
      \<and> (\<forall>x \<in> set (drop (length l) (calls s)). \<not> is_send (fst x)))"

section \<open>Values used in the examples\<close>

text \<open>
  The arrow keys with their SDL key codes, a key table of six keys, and the first and
  third controller axes as the horizontal ones.
\<close>

definition example_enumerators :: enumerators where
  "example_enumerators =
     \<lparr>KeyboardKey_NONE = 0, KeyboardKey_RIGHT = 0x4000004F, KeyboardKey_UP = 0x40000052,
      KeyboardKey_LEFT = 0x40000050, KeyboardKey_DOWN = 0x40000051,
      KeyboardKey_names = [0, 0x4000004F, 0x40000052, 0x40000050, 0x40000051, 32],
      MouseButton_NONE = 0, JoyPadButton_INVALID = - 1, JoyPadAxis_INVALID = - 1,
      JoyPadAxis_LEFT_X = 0, JoyPadAxis_RIGHT_X = 2\<rparr>"

definition example_video :: video where
  "example_video =
     \<lparr>output_to_quest_coordinates = (\<lambda>p. p), get_output_size = (320, 240),
      float_times_size = (\<lambda>f n. 0)\<rparr>"

definition quiet_collaborators :: "unit collaborators" where
  "quiet_collaborators c w = (False, [], w)"

definition example_main_loop :: "unit main_loop" where
  "example_main_loop =
     \<lparr>game = None, next_game = None, exiting = False, debug_lag = 0,
      lua_console_enabled = True, suspend_unfocused = True, suspended = False, turbo = False,
      lua_commands = [], num_lua_commands_pushed = 0, num_lua_commands_done = 0,
      world = (), calls = []\<rparr>"

text \<open>
  Collaborators that count the updates in their state and whose Lua context asks the
  main loop to exit in the update it finds the count at 100, with a main loop that
  starts the count at 0. Locals and clock readings of a fixed-timestep frame: a frame
  that finds half a second elapsed, and a frame entered with a given lag while the clock
  stands still.
\<close>

definition exit_at_100 :: "nat collaborators" where
  "exit_at_100 c w =
     (case c of
        Lua_update \<Rightarrow> (False, if w = 100 then [Set_exiting] else [], w)
      | System_update t \<Rightarrow> (False, [], Suc w)
      | _ \<Rightarrow> (False, [], w))"

definition counting_main_loop :: "nat main_loop" where
  "counting_main_loop =
     \<lparr>game = None, next_game = None, exiting = False, debug_lag = 0,
      lua_console_enabled = True, suspend_unfocused = True, suspended = False, turbo = False,
      lua_commands = [], num_lua_commands_pushed = 0, num_lua_commands_done = 0,
      world = 0, calls = []\<rparr>"

definition stalled_vars :: fixed_vars where
  "stalled_vars = \<lparr>last_frame_date = 1000, lag = 0, time_dropped = 0\<rparr>"

definition stalled_clock :: frame_clock where
  "stalled_clock =
     \<lparr>real_time_ns_top = 500001000, real_time_ns_huge_lag = 500002000, real_time_ms_end = 500\<rparr>"

definition still_clock :: frame_clock where
  "still_clock = \<lparr>real_time_ns_top = 0, real_time_ns_huge_lag = 0, real_time_ms_end = 0\<rparr>"

definition late_vars :: "64 word \<Rightarrow> fixed_vars" where
  "late_vars l = \<lparr>last_frame_date = 0, lag = l, time_dropped = 0\<rparr>"

text \<open>
  The main loop after \<open>push_lua_command\<close> was called with A, B and C; the clock of two
  dynamic frames that each last the display period of 16666667 ns, the loop having
  started at 1000; a main loop with a game, whose log already has the three sends of an
  earlier dispatch of the space key that nobody handled; collaborators whose Lua context
  handles every input event.
\<close>

definition pending_abc :: "unit main_loop" where
  "pending_abc =
     snd (push_lua_command ''C'' (snd (push_lua_command ''B''
       (snd (push_lua_command ''A'' example_main_loop)))))"

definition nominal_clocks :: "dynamic_clock list" where
  "nominal_clocks =
     [\<lparr>real_time_ns = 16667667, display_period_ns = 16666667\<rparr>,
      \<lparr>real_time_ns = 33334334, display_period_ns = 16666667\<rparr>]"

definition already_dispatched :: "unit main_loop" where
  "already_dispatched =
     example_main_loop
       \<lparr>game := Some 1,
        calls := [(Lua_notify_input (SDL_KEYDOWN 32 0), False),
                  (Game_notify_input (SDL_KEYDOWN 32 0), False),
                  (Commands_dispatcher_notify_input (SDL_KEYDOWN 32 0), False)]\<rparr>"

definition handling_collaborators :: "unit collaborators" where
  "handling_collaborators c w = (case c of Lua_notify_input e \<Rightarrow> (True, [], w) | _ \<Rightarrow> (False, [], w))"

section \<open>Keys that are down, from the raw events\<close>

text \<open>
  The reference the pressed-key set is compared with. A key is down after a sequence
  of raw events when the last event about it was a key-down; a key no event is about
  keeps the state it had. \<open>last_key_event\<close> finds that last event (\<open>True\<close> for a
  key-down); \<open>keys_currently_down\<close> is the same set computed from the front.
\<close>

fun keys_currently_down :: "32 word set \<Rightarrow> SDL_Event list \<Rightarrow> 32 word set" where
  "keys_currently_down S [] = S"
| "keys_currently_down S (SDL_KEYDOWN k r # es) = keys_currently_down (insert k S) es"
| "keys_currently_down S (SDL_KEYUP k r # es) = keys_currently_down (S - {k}) es"
| "keys_currently_down S (e # es) = keys_currently_down S es"

fun last_key_event :: "32 word \<Rightarrow> SDL_Event list \<Rightarrow> bool option" where
  "last_key_event k [] = None"
| "last_key_event k (e # es) =
     (case last_key_event k es of
        Some down \<Rightarrow> Some down
      | None \<Rightarrow>
          if is_SDL_KEYDOWN e \<and> key_sym e = k then Some True
          else if is_SDL_KEYUP e \<and> key_sym e = k then Some False
          else None)"

section \<open>Properties of the input events\<close>

text \<open>
  C10. Hat events are deprecated: for every event \<open>is_joypad_hat_moved\<close> is false, so
  \<open>get_joypad_hat\<close> and \<open>get_joypad_hat_direction\<close> return -1,
  \<open>is_joypad_hat_centered\<close> is false, and \<open>get_direction\<close> is decided by its keyboard
  and axis branches alone: the hat branch never gives the result.
\<close>

theorem hat_events_deprecated:
  "\<not> is_joypad_hat_moved e \<and> get_joypad_hat e = - 1 \<and> get_joypad_hat_direction e = - 1
   \<and> \<not> is_joypad_hat_centered e
   \<and> get_direction K g e =
       (if is_keyboard_direction_key_pressed K g e then
          (if get_keyboard_key K g e = KeyboardKey_RIGHT K then 0
           else if get_keyboard_key K g e = KeyboardKey_UP K then 2
           else if get_keyboard_key K g e = KeyboardKey_LEFT K then 4
           else if get_keyboard_key K g e = KeyboardKey_DOWN K then 6
           else - 1)
        else if is_joypad_axis_moved e \<and> \<not> is_joypad_axis_centered g e then
          (if get_joypad_axis K e = JoyPadAxis_LEFT_X K \<or> get_joypad_axis K e = JoyPadAxis_RIGHT_X K
           then (if get_joypad_axis_state g e > 0 then 0 else 4)
           else (if get_joypad_axis_state g e > 0 then 6 else 2))
        else - 1)"
  by (simp add: is_joypad_hat_moved_def get_joypad_hat_def get_joypad_hat_direction_def
      is_joypad_hat_centered_def get_direction_def Let_def)

theorem hat_events_deprecated_witness:
  "get_joypad_hat (SDL_JOYHATMOTION 0 2) = - 1
   \<and> get_joypad_hat_direction (SDL_JOYHATMOTION 0 2) = - 1
   \<and> get_direction example_enumerators initial_input_state (SDL_JOYHATMOTION 0 2) = - 1"
  using hat_events_deprecated [of "SDL_JOYHATMOTION 0 2" example_enumerators initial_input_state]
  by (simp add: is_keyboard_direction_key_pressed_def directional_keys_def
      is_keyboard_key_pressed_key_def is_keyboard_key_pressed_def is_joypad_axis_moved_def
      example_enumerators_def)

text \<open>
  C3. The state of an axis event with raw value \<open>v\<close> is 0 when \<open>|v|\<close> is below the
  deadzone, else \<open>v / 32767\<close> for a positive and \<open>v / 32768\<close> for a negative \<open>v\<close>. The
  deadzone is 500 unless configured, and with 500 the raw values 0 and 499 give 0, 500
  gives a positive state, 32767 gives 1 and -32768 gives -1.
\<close>

theorem joypad_axis_state_law:
  "get_joypad_axis_state g (SDL_CONTROLLERAXISMOTION w a v) =
     (if \<bar>sint v\<bar> < joypad_deadzone g then 0
      else if 0 < sint v then of_int (sint v) / 32767
      else of_int (sint v) / 32768)
   \<and> joypad_deadzone initial_input_state = 500
   \<and> (joypad_deadzone g = 500 \<longrightarrow>
        get_joypad_axis_state g (SDL_CONTROLLERAXISMOTION w a 0) = 0
      \<and> get_joypad_axis_state g (SDL_CONTROLLERAXISMOTION w a 499) = 0
      \<and> 0 < get_joypad_axis_state g (SDL_CONTROLLERAXISMOTION w a 500)
      \<and> get_joypad_axis_state g (SDL_CONTROLLERAXISMOTION w a 32767) = 1
      \<and> get_joypad_axis_state g (SDL_CONTROLLERAXISMOTION w a (- 32768)) = - 1)"
  by (simp add: get_joypad_axis_state_def is_joypad_axis_moved_def Let_def
      initial_input_state_def)

theorem joypad_axis_state_law_witness:
  "get_joypad_axis_state initial_input_state (SDL_CONTROLLERAXISMOTION 0 1 (- 20000)) = - 625 / 1024
   \<and> 0 < get_joypad_axis_state initial_input_state (SDL_CONTROLLERAXISMOTION 0 1 500)
   \<and> get_joypad_axis_state initial_input_state (SDL_CONTROLLERAXISMOTION 0 1 32767) = 1"
  using joypad_axis_state_law [of initial_input_state 0 1 "- 20000"]
    joypad_axis_state_law [of initial_input_state 0 1 0]
  by (simp add: initial_input_state_def)

text \<open>
  C9, as the code has it. The position and pressure accessors test the kind of the event
  with \<open>SOLARUS_REQUIRE\<close>, which is the same test in a debug and in an optimized build:
  on an event of the wrong kind they stop the program with a message in both builds.
  The key, mouse button and joypad button accessors return their \<open>NONE\<close> or \<open>INVALID\<close>
  enumerator instead. Only \<open>SOLARUS_ASSERT\<close> is compiled out of an optimized build.
  The first theorem is the optimized build stopping on a window-close event, against the
  claim that this build does not check.
\<close>

theorem release_build_unchecked_counterexample:
  "get_mouse_position True example_video SDL_QUIT = Inl ''Event is not a mouse event''
   \<and> get_finger_position True example_video SDL_QUIT = Inl ''Event is not a touch finger event''
   \<and> get_finger_pressure True SDL_QUIT = Inl ''Event is not a touch finger event''"
  by (simp add: get_mouse_position_def get_finger_position_def get_finger_pressure_def
      SOLARUS_REQUIRE_def is_mouse_event_def is_finger_event_def)

text \<open>C9, amended: the wrong-kind accessors in both builds.\<close>

theorem wrong_kind_accessors:
  "(\<not> is_mouse_event e \<longrightarrow>
      get_mouse_position NDEBUG V e = Inl ''Event is not a mouse event'')
   \<and> (\<not> is_finger_event e \<longrightarrow>
      get_finger_position NDEBUG V e = Inl ''Event is not a touch finger event''
      \<and> get_finger_pressure NDEBUG e = Inl ''Event is not a touch finger event'')
   \<and> (\<not> is_keyboard_event g e \<longrightarrow> get_keyboard_key K g e = KeyboardKey_NONE K)
   \<and> (\<not> is_mouse_event e \<longrightarrow> get_mouse_button K e = MouseButton_NONE K)
   \<and> (\<not> is_joypad_button_pressed e \<and> \<not> is_joypad_button_released e \<longrightarrow>
      get_joypad_button K e = JoyPadButton_INVALID K)
   \<and> SOLARUS_ASSERT True False message = Inr ()
   \<and> SOLARUS_ASSERT False False message = Inl message"
  by (simp add: get_mouse_position_def get_finger_position_def get_finger_pressure_def
      SOLARUS_REQUIRE_def SOLARUS_ASSERT_def get_keyboard_key_def get_mouse_button_def
      get_joypad_button_def)

theorem wrong_kind_accessors_witness:
  "get_mouse_position False example_video (SDL_KEYDOWN 32 0) = Inl ''Event is not a mouse event''
   \<and> get_mouse_position True example_video (SDL_KEYDOWN 32 0) = Inl ''Event is not a mouse event''
   \<and> get_finger_pressure True (SDL_KEYDOWN 32 0) = Inl ''Event is not a touch finger event''
   \<and> get_keyboard_key example_enumerators initial_input_state SDL_QUIT = 0
   \<and> get_mouse_button example_enumerators SDL_QUIT = 0
   \<and> get_joypad_button example_enumerators SDL_QUIT = - 1"
  using wrong_kind_accessors [of "SDL_KEYDOWN 32 0" False example_video initial_input_state example_enumerators]
    wrong_kind_accessors [of "SDL_KEYDOWN 32 0" True example_video initial_input_state example_enumerators]
    wrong_kind_accessors [of "SDL_QUIT" True example_video initial_input_state example_enumerators]
  by (simp add: is_mouse_event_def is_finger_event_def is_keyboard_event_def
      is_joypad_button_pressed_def is_joypad_button_released_def example_enumerators_def)

text \<open>
  C5. A joypad button press is returned as it is, puts the button in the pressed set,
  and adds a window-close event at the tail of the queue exactly when the set then
  equals the quit combo; a release removes the button and adds nothing.
\<close>

theorem joypad_button_quit_combo:
  "(sdl_queue g = SDL_JOYBUTTONDOWN b # rest \<longrightarrow>
      get_event g =
        (Some (SDL_JOYBUTTONDOWN b),
         g\<lparr>sdl_queue := (if insert b (jbuttons_pressed g) = quit_combo g
                          then rest @ [SDL_QUIT] else rest),
           jbuttons_pressed := insert b (jbuttons_pressed g)\<rparr>))
   \<and> (sdl_queue g = SDL_JOYBUTTONUP b # rest \<longrightarrow>
      get_event g =
        (Some (SDL_JOYBUTTONUP b),
         g\<lparr>sdl_queue := rest, jbuttons_pressed := jbuttons_pressed g - {b}\<rparr>))"
  by (simp add: get_event_def simulate_window_closing_def Let_def)

theorem joypad_button_quit_combo_witness:
  "get_event (initial_input_state\<lparr>quit_combo := {4, 6}, sdl_queue := [SDL_JOYBUTTONDOWN 4, SDL_JOYBUTTONDOWN 6]\<rparr>)
     = (Some (SDL_JOYBUTTONDOWN 4),
        initial_input_state\<lparr>quit_combo := {4, 6}, sdl_queue := [SDL_JOYBUTTONDOWN 6], jbuttons_pressed := {4}\<rparr>)
   \<and> get_event (initial_input_state\<lparr>quit_combo := {4, 6}, sdl_queue := [SDL_JOYBUTTONDOWN 6], jbuttons_pressed := {4}\<rparr>)
     = (Some (SDL_JOYBUTTONDOWN 6),
        initial_input_state\<lparr>quit_combo := {4, 6}, sdl_queue := [SDL_QUIT], jbuttons_pressed := {4, 6}\<rparr>)
   \<and> get_event (initial_input_state\<lparr>sdl_queue := [SDL_JOYBUTTONUP 6], jbuttons_pressed := {4, 6}\<rparr>)
     = (Some (SDL_JOYBUTTONUP 6), initial_input_state\<lparr>sdl_queue := [], jbuttons_pressed := {4}\<rparr>)"
  using joypad_button_quit_combo [of "initial_input_state\<lparr>quit_combo := {4, 6}, sdl_queue := [SDL_JOYBUTTONDOWN 4, SDL_JOYBUTTONDOWN 6]\<rparr>" 4 "[SDL_JOYBUTTONDOWN 6]"]
    joypad_button_quit_combo [of "initial_input_state\<lparr>quit_combo := {4, 6}, sdl_queue := [SDL_JOYBUTTONDOWN 6], jbuttons_pressed := {4}\<rparr>" 6 "[]"]
    joypad_button_quit_combo [of "initial_input_state\<lparr>sdl_queue := [SDL_JOYBUTTONUP 6], jbuttons_pressed := {4, 6}\<rparr>" 6 "[]"]
  by (auto simp: initial_input_state_def)

subsection \<open>The pressed keys\<close>

lemma keys_currently_down_quit:
  "keys_currently_down S (es @ [SDL_QUIT]) = keys_currently_down S es"
  by (induction S es rule: keys_currently_down.induct) simp_all

lemma get_event_keys:
  "sdl_queue g = ev # rest \<Longrightarrow>
   keys_currently_down (keys_pressed (snd (get_event g))) (sdl_queue (snd (get_event g)))
     = keys_currently_down (keys_pressed g) (sdl_queue g)"
  by (cases ev)
    (simp_all add: get_event_def simulate_window_closing_def Let_def keys_currently_down_quit
      insert_absorb)

lemma poll_events_keys:
  "keys_pressed (fst (poll_events ext g s)) = keys_currently_down (keys_pressed g) (sdl_queue g)"
proof (induction ext g s rule: poll_events.induct)
  case (1 ext g s)
  show ?case
  proof (cases "sdl_queue g")
    case Nil
    then show ?thesis
      by (simp add: poll_events.simps [of ext g s] get_event_Nil)
  next
    case (Cons ev rest)
    obtain r g' where ge: "get_event g = (r, g')" by (cases "get_event g")
    with get_event_queue [OF Cons] obtain event where r: "r = Some event" by auto
    from get_event_keys [OF Cons] ge
    have k: "keys_currently_down (keys_pressed g') (sdl_queue g')
               = keys_currently_down (keys_pressed g) (sdl_queue g)" by simp
    from "1.IH" [OF ge [symmetric] r]
    have "keys_pressed (fst (poll_events ext g' (notify_input ext g' event s)))
            = keys_currently_down (keys_pressed g') (sdl_queue g')" by simp
    with k ge r show ?thesis
      by (simp add: poll_events.simps [of ext g s])
  qed
qed

lemma keys_currently_down_last:
  "k \<in> keys_currently_down S es \<longleftrightarrow>
     (case last_key_event k es of None \<Rightarrow> k \<in> S | Some down \<Rightarrow> down)"
  by (induction S es rule: keys_currently_down.induct) (auto split: option.splits)

text \<open>
  C4. A key-down for a key in the pressed set leaves the set and returns the event with
  the repeat flag set; for an absent key it inserts the key. A key-up for an absent key
  leaves the set and sets the repeat flag; for a present key it erases the key. After
  the queue has been polled empty, a key is in the set exactly when the last raw event
  about it was a key-down (or, with no event about it, when it was in the set before).
\<close>

theorem pressed_keys_tracking:
  "(sdl_queue g = SDL_KEYDOWN k r # rest \<and> k \<in> keys_pressed g \<longrightarrow>
      get_event g = (Some (SDL_KEYDOWN k 1), g\<lparr>sdl_queue := rest\<rparr>))
   \<and> (sdl_queue g = SDL_KEYDOWN k r # rest \<and> k \<notin> keys_pressed g \<longrightarrow>
      get_event g =
        (Some (SDL_KEYDOWN k r), g\<lparr>sdl_queue := rest, keys_pressed := insert k (keys_pressed g)\<rparr>))
   \<and> (sdl_queue g = SDL_KEYUP k r # rest \<and> k \<notin> keys_pressed g \<longrightarrow>
      get_event g = (Some (SDL_KEYUP k 1), g\<lparr>sdl_queue := rest\<rparr>))
   \<and> (sdl_queue g = SDL_KEYUP k r # rest \<and> k \<in> keys_pressed g \<longrightarrow>
      get_event g =
        (Some (SDL_KEYUP k r), g\<lparr>sdl_queue := rest, keys_pressed := keys_pressed g - {k}\<rparr>))
   \<and> (k \<in> keys_pressed (fst (poll_events ext g s)) \<longleftrightarrow>
        (case last_key_event k (sdl_queue g) of
           None \<Rightarrow> k \<in> keys_pressed g
         | Some down \<Rightarrow> down))"
proof -
  have "k \<in> keys_pressed (fst (poll_events ext g s)) \<longleftrightarrow>
        (case last_key_event k (sdl_queue g) of
           None \<Rightarrow> k \<in> keys_pressed g
         | Some down \<Rightarrow> down)"
    by (simp add: poll_events_keys keys_currently_down_last)
  then show ?thesis
    by (simp add: get_event_def Let_def)
qed

theorem pressed_keys_tracking_witness:
  "get_event (initial_input_state\<lparr>sdl_queue := [SDL_KEYDOWN 97 0, SDL_KEYDOWN 97 0, SDL_KEYUP 97 0]\<rparr>)
     = (Some (SDL_KEYDOWN 97 0),
        initial_input_state\<lparr>sdl_queue := [SDL_KEYDOWN 97 0, SDL_KEYUP 97 0], keys_pressed := {97}\<rparr>)
   \<and> get_event (initial_input_state\<lparr>sdl_queue := [SDL_KEYDOWN 97 0, SDL_KEYUP 97 0], keys_pressed := {97}\<rparr>)
     = (Some (SDL_KEYDOWN 97 1),
        initial_input_state\<lparr>sdl_queue := [SDL_KEYUP 97 0], keys_pressed := {97}\<rparr>)
   \<and> get_event (initial_input_state\<lparr>sdl_queue := [SDL_KEYUP 97 0]\<rparr>)
     = (Some (SDL_KEYUP 97 1), initial_input_state\<lparr>sdl_queue := []\<rparr>)
   \<and> 97 \<notin> keys_pressed (fst (poll_events quiet_collaborators
        (initial_input_state\<lparr>sdl_queue := [SDL_KEYDOWN 97 0, SDL_KEYDOWN 97 0, SDL_KEYUP 97 0]\<rparr>)
        example_main_loop))
   \<and> 98 \<in> keys_pressed (fst (poll_events quiet_collaborators
        (initial_input_state\<lparr>sdl_queue := [SDL_KEYUP 98 0, SDL_KEYDOWN 98 0, SDL_KEYDOWN 97 0]\<rparr>)
        example_main_loop))"
  using
    pressed_keys_tracking [of "initial_input_state\<lparr>sdl_queue := [SDL_KEYDOWN 97 0, SDL_KEYDOWN 97 0, SDL_KEYUP 97 0]\<rparr>"
      97 0 "[SDL_KEYDOWN 97 0, SDL_KEYUP 97 0]" quiet_collaborators example_main_loop]
    pressed_keys_tracking [of "initial_input_state\<lparr>sdl_queue := [SDL_KEYDOWN 97 0, SDL_KEYUP 97 0], keys_pressed := {97}\<rparr>"
      97 0 "[SDL_KEYUP 97 0]" quiet_collaborators example_main_loop]
    pressed_keys_tracking [of "initial_input_state\<lparr>sdl_queue := [SDL_KEYUP 97 0]\<rparr>"
      97 0 "[]" quiet_collaborators example_main_loop]
    pressed_keys_tracking [of "initial_input_state\<lparr>sdl_queue := [SDL_KEYUP 98 0, SDL_KEYDOWN 98 0, SDL_KEYDOWN 97 0]\<rparr>"
      98 0 "[SDL_KEYDOWN 98 0, SDL_KEYDOWN 97 0]" quiet_collaborators example_main_loop]
  by (simp add: initial_input_state_def)


section \<open>Properties of the fixed timestep\<close>

lemma sint_fixed_timestep_ns: "sint fixed_timestep_ns = 10000000"
  by (simp add: fixed_timestep_ns_def)

lemma sint_sub_timestep:
  "10000000 \<le> sint (lg :: 64 word) \<Longrightarrow> sint (lg - fixed_timestep_ns) = sint lg - 10000000"
proof -
  assume a: "10000000 \<le> sint lg"
  have b: "sint lg < 2 ^ 63" using sint_lt [of lg] by simp
  have "sint (lg - fixed_timestep_ns) = signed_take_bit 63 (sint lg - 10000000)"
    by (simp add: sint_word_ariths sint_fixed_timestep_ns)
  also have "\<dots> = sint lg - 10000000"
    using a b by (simp add: signed_take_bit_int_eq_self)
  finally show ?thesis .
qed

lemma catch_up_count:
  "0 \<le> sint lg \<Longrightarrow> n \<le> 10 \<Longrightarrow>
   \<forall>i < min (10 - n) (nat (sint lg div 10000000)).
     \<not> exiting (((step ext fixed_timestep_ns) ^^ i) s)
     \<and> \<not> suspended (((step ext fixed_timestep_ns) ^^ i) s) \<Longrightarrow>
     catch_up ext lg n s =
       (lg - of_nat (min (10 - n) (nat (sint lg div 10000000))) * fixed_timestep_ns,
        n + min (10 - n) (nat (sint lg div 10000000)),
        ((step ext fixed_timestep_ns) ^^ (min (10 - n) (nat (sint lg div 10000000)))) s)"
proof (induction ext lg n s rule: catch_up.induct)
  case (1 ext lg n s)
  show ?case
  proof (cases "10000000 \<le> sint lg \<and> n < 10")
    case True
    have sl: "sint (lg - fixed_timestep_ns) = sint lg - 10000000"
      using True by (simp add: sint_sub_timestep)
    define k' where "k' = min (10 - (n + 1)) (nat (sint (lg - fixed_timestep_ns) div 10000000))"
    have d: "1 \<le> sint lg div 10000000"
      using True zdiv_mono1 [of 10000000 "sint lg" 10000000] by simp
    have k: "min (10 - n) (nat (sint lg div 10000000)) = Suc k'"
    proof -
      have "(sint lg - 10000000) div 10000000 = (sint lg + (- 1) * 10000000) div 10000000"
        by simp
      also have "\<dots> = (- 1) + sint lg div 10000000"
        by (rule div_mult_self1) simp
      finally have "sint (lg - fixed_timestep_ns) div 10000000 = sint lg div 10000000 - 1"
        unfolding sl by simp
      then have "nat (sint lg div 10000000) = Suc (nat (sint (lg - fixed_timestep_ns) div 10000000))"
        using d by simp
      moreover have "10 - n = Suc (10 - (n + 1))" using True by arith
      ultimately show ?thesis unfolding k'_def by (simp only: min_Suc_Suc)
    qed
    have traj: "\<forall>i < Suc k'. \<not> exiting (((step ext fixed_timestep_ns) ^^ i) s)
                  \<and> \<not> suspended (((step ext fixed_timestep_ns) ^^ i) s)"
      using "1.prems"(3) unfolding k .
    from traj have s0: "\<not> exiting s" "\<not> suspended s"
      by force+
    have c: "sint fixed_timestep_ns \<le> sint lg \<and> n < 10 \<and> \<not> exiting s \<and> \<not> suspended s"
      using True s0 by (simp add: sint_fixed_timestep_ns)
    have tr': "\<forall>i < k'. \<not> exiting (((step ext fixed_timestep_ns) ^^ i) (step ext fixed_timestep_ns s))
                  \<and> \<not> suspended (((step ext fixed_timestep_ns) ^^ i) (step ext fixed_timestep_ns s))"
    proof (intro allI impI)
      fix i assume "i < k'"
      then have "Suc i < Suc k'" by simp
      with traj have "\<not> exiting (((step ext fixed_timestep_ns) ^^ Suc i) s)
                  \<and> \<not> suspended (((step ext fixed_timestep_ns) ^^ Suc i) s)"
        by blast
      then show "\<not> exiting (((step ext fixed_timestep_ns) ^^ i) (step ext fixed_timestep_ns s))
                  \<and> \<not> suspended (((step ext fixed_timestep_ns) ^^ i) (step ext fixed_timestep_ns s))"
        by (simp add: funpow_swap1)
    qed
    have p: "0 \<le> sint (lg - fixed_timestep_ns)" "n + 1 \<le> 10"
      using True sl by simp_all
    from "1.IH" [OF c p] tr'
    have ih: "catch_up ext (lg - fixed_timestep_ns) (n + 1) (step ext fixed_timestep_ns s) =
       (lg - fixed_timestep_ns - of_nat k' * fixed_timestep_ns, n + 1 + k',
        ((step ext fixed_timestep_ns) ^^ k') (step ext fixed_timestep_ns s))"
      unfolding k'_def by blast
    have w: "lg - fixed_timestep_ns - of_nat k' * fixed_timestep_ns
               = lg - of_nat (Suc k') * fixed_timestep_ns"
      by (simp add: algebra_simps)
    have "catch_up ext lg n s
            = catch_up ext (lg - fixed_timestep_ns) (n + 1) (step ext fixed_timestep_ns s)"
      using c by (subst catch_up.simps) simp
    also note ih
    finally have "catch_up ext lg n s =
       (lg - fixed_timestep_ns - of_nat k' * fixed_timestep_ns, n + 1 + k',
        ((step ext fixed_timestep_ns) ^^ k') (step ext fixed_timestep_ns s))" .
    moreover have "((step ext fixed_timestep_ns) ^^ k') (step ext fixed_timestep_ns s)
                     = ((step ext fixed_timestep_ns) ^^ Suc k') s"
      by (simp only: funpow_Suc_right o_apply)
    moreover have "n + 1 + k' = n + Suc k'" by simp
    ultimately show ?thesis
      unfolding k w by (simp only:)
  next
    case False
    have k: "min (10 - n) (nat (sint lg div 10000000)) = 0"
    proof (cases "n < 10")
      case True
      with False "1.prems"(1) have "sint lg div 10000000 = 0"
        by (simp add: div_pos_pos_trivial)
      then show ?thesis by simp
    next
      case False
      then show ?thesis by simp
    qed
    have "\<not> (sint fixed_timestep_ns \<le> sint lg \<and> n < 10 \<and> \<not> exiting s \<and> \<not> suspended s)"
      using False by (auto simp: sint_fixed_timestep_ns)
    then have "catch_up ext lg n s = (lg, n, s)"
      by (subst catch_up.simps) (simp only: if_False)
    then show ?thesis
      unfolding k by simp
  qed
qed

lemma measure_lag_huge:
  "200000000 \<le> sint (accumulated_lag clk v) \<Longrightarrow>
   measure_lag clk v =
     v\<lparr>last_frame_date := real_time_ns_huge_lag clk
          - (time_dropped v + (accumulated_lag clk v - fixed_timestep_ns)),
       lag := fixed_timestep_ns,
       time_dropped := time_dropped v + (accumulated_lag clk v - fixed_timestep_ns)\<rparr>"
  by (simp add: measure_lag_def accumulated_lag_def Let_def)

lemma measure_lag_small:
  "\<not> 200000000 \<le> sint (accumulated_lag clk v) \<Longrightarrow>
   measure_lag clk v =
     v\<lparr>last_frame_date := real_time_ns_top clk - time_dropped v, lag := accumulated_lag clk v\<rparr>"
  by (simp add: measure_lag_def accumulated_lag_def Let_def)

lemma catch_up_stop:
  "sint lg < 10000000 \<Longrightarrow> catch_up ext lg n s = (lg, n, s)"
  by (subst catch_up.simps) (simp add: sint_fixed_timestep_ns)

lemma catch_up_one:
  "catch_up ext fixed_timestep_ns 0 s =
     (if \<not> exiting s \<and> \<not> suspended s then (0, 1, step ext fixed_timestep_ns s)
      else (fixed_timestep_ns, 0, s))"
  by (subst catch_up.simps) (simp add: catch_up_stop)

lemma fixed_frame_updates:
  assumes ci: "check_input ext g s = (g', s')"
    and run: "\<not> turbo s'"
    and pos: "0 \<le> sint (lag (measure_lag clk v))"
    and traj: "\<forall>i < min 10 (nat (sint (lag (measure_lag clk v)) div 10000000)).
       \<not> exiting (((step ext fixed_timestep_ns) ^^ i) s')
       \<and> \<not> suspended (((step ext fixed_timestep_ns) ^^ i) s')"
  shows "fst (snd (fixed_frame ext clk v g s))
           = min 10 (nat (sint (lag (measure_lag clk v)) div 10000000))
       \<and> lag (fst (fixed_frame ext clk v g s))
           = lag (measure_lag clk v)
             - of_nat (min 10 (nat (sint (lag (measure_lag clk v)) div 10000000))) * fixed_timestep_ns"
proof -
  from catch_up_count [of "lag (measure_lag clk v)" 0 ext s'] pos traj
  have cu: "catch_up ext (lag (measure_lag clk v)) 0 s' =
       (lag (measure_lag clk v)
          - of_nat (min 10 (nat (sint (lag (measure_lag clk v)) div 10000000))) * fixed_timestep_ns,
        min 10 (nat (sint (lag (measure_lag clk v)) div 10000000)),
        ((step ext fixed_timestep_ns) ^^ (min 10 (nat (sint (lag (measure_lag clk v)) div 10000000)))) s')"
    by simp
  show ?thesis
    unfolding fixed_frame_def by (simp add: Let_def ci run cu)
qed

lemma fixed_frame_huge:
  assumes "200000000 \<le> sint (accumulated_lag clk v)"
  shows "fst (snd (fixed_frame ext clk v g s)) \<le> 1
       \<and> (lag (fst (fixed_frame ext clk v g s)) = 0
          \<or> lag (fst (fixed_frame ext clk v g s)) = fixed_timestep_ns)"
proof -
  obtain g' s' where ci: "check_input ext g s = (g', s')" by (cases "check_input ext g s")
  have l: "lag (measure_lag clk v) = fixed_timestep_ns"
    using assms by (simp add: measure_lag_huge)
  have z: "catch_up ext 0 (Suc 0) t = (0, Suc 0, t)" for t
    by (simp add: catch_up_stop)
  show ?thesis
    unfolding fixed_frame_def by (simp add: Let_def ci l z catch_up_one)
qed


lemma check_input_idle:
  "sdl_queue g = [] \<Longrightarrow> lua_commands s = [] \<Longrightarrow> check_input ext g s = (g, s)"
  by (simp add: check_input_def poll_events.simps [of ext g s] get_event_Nil run_lua_commands_def)

lemma step_quiet:
  "exiting (step quiet_collaborators t s) = exiting s
   \<and> suspended (step quiet_collaborators t s) = suspended s"
  by (simp add: step_def perform_def invoke_def quiet_collaborators_def record_call_def Let_def)

lemma steps_quiet:
  "exiting (((step quiet_collaborators t) ^^ i) s) = exiting s
   \<and> suspended (((step quiet_collaborators t) ^^ i) s) = suspended s"
  by (induction i) (simp_all add: step_quiet)

lemma step_exit_at_100:
  "game s = None \<Longrightarrow> next_game s = None \<Longrightarrow> world s \<noteq> 100 \<Longrightarrow>
   game (step exit_at_100 t s) = None \<and> next_game (step exit_at_100 t s) = None
   \<and> world (step exit_at_100 t s) = Suc (world s)
   \<and> exiting (step exit_at_100 t s) = exiting s
   \<and> suspended (step exit_at_100 t s) = suspended s"
  by (simp add: step_def perform_def invoke_def exit_at_100_def record_call_def Let_def)

lemma steps_exit_at_100:
  "game s = None \<Longrightarrow> next_game s = None \<Longrightarrow> world s + i \<le> 100 \<Longrightarrow>
   game (((step exit_at_100 t) ^^ i) s) = None
   \<and> next_game (((step exit_at_100 t) ^^ i) s) = None
   \<and> world (((step exit_at_100 t) ^^ i) s) = world s + i
   \<and> exiting (((step exit_at_100 t) ^^ i) s) = exiting s
   \<and> suspended (((step exit_at_100 t) ^^ i) s) = suspended s"
proof (induction i)
  case 0
  then show ?case by simp
next
  case (Suc i)
  from Suc.prems have "world s + i \<le> 100" by simp
  from Suc.IH [OF Suc.prems(1) Suc.prems(2) this] Suc.prems(3)
    step_exit_at_100 [of "((step exit_at_100 t) ^^ i) s" t]
  show ?case by simp
qed

text \<open>
  C2. When the lag accumulated at the top of a frame is at least 200 ms, the frame adds
  the lag minus one timestep to \<open>time_dropped\<close>, sets the lag to one timestep and takes
  \<open>last_frame_date\<close> from the clock minus the new \<open>time_dropped\<close>. The frame then makes
  at most one update, whatever the collaborators do, and ends with a lag of 0 or of one
  timestep: the stall is not caught up.
\<close>

theorem huge_lag_is_dropped:
  "200000000 \<le> sint (accumulated_lag clk v) \<Longrightarrow>
     measure_lag clk v =
       v\<lparr>last_frame_date := real_time_ns_huge_lag clk
            - (time_dropped v + (accumulated_lag clk v - fixed_timestep_ns)),
         lag := fixed_timestep_ns,
         time_dropped := time_dropped v + (accumulated_lag clk v - fixed_timestep_ns)\<rparr>
   \<and> fst (snd (fixed_frame ext clk v g s)) \<le> 1
   \<and> (lag (fst (fixed_frame ext clk v g s)) = 0
      \<or> lag (fst (fixed_frame ext clk v g s)) = fixed_timestep_ns)"
  using fixed_frame_huge [of clk v ext g s] by (simp add: measure_lag_huge)

theorem huge_lag_is_dropped_witness:
  "accumulated_lag stalled_clock stalled_vars = 500000000
   \<and> measure_lag stalled_clock stalled_vars =
       \<lparr>last_frame_date = 10002000, lag = 10000000, time_dropped = 490000000\<rparr>
   \<and> fst (snd (fixed_frame quiet_collaborators stalled_clock stalled_vars
                  initial_input_state example_main_loop)) \<le> 1"
  using huge_lag_is_dropped [of stalled_clock stalled_vars quiet_collaborators
      initial_input_state example_main_loop]
  by (simp add: accumulated_lag_def stalled_clock_def stalled_vars_def fixed_timestep_ns_def)

text \<open>
  C1, as the code has it. A frame entered with a lag of 1000000000 ns does not make
  ten updates: the lag is at least 200 ms, so it is reset to one timestep before the
  loop, one update runs and the lag left is 0.
\<close>

theorem cap_not_reached_counterexample:
  "fst (snd (fixed_frame quiet_collaborators still_clock (late_vars 1000000000)
               initial_input_state example_main_loop)) = 1
   \<and> lag (fst (fixed_frame quiet_collaborators still_clock (late_vars 1000000000)
               initial_input_state example_main_loop)) = 0"
proof -
  have ci: "check_input quiet_collaborators initial_input_state example_main_loop
              = (initial_input_state, example_main_loop)"
    by (rule check_input_idle) (simp_all add: initial_input_state_def example_main_loop_def)
  have m: "lag (measure_lag still_clock (late_vars 1000000000)) = 10000000"
    by (simp add: measure_lag_def still_clock_def late_vars_def Let_def fixed_timestep_ns_def)
  have run: "\<not> turbo example_main_loop"
    by (simp add: example_main_loop_def)
  have "\<forall>i < min 10 (nat (sint (lag (measure_lag still_clock (late_vars 1000000000)))
                              div 10000000)).
       \<not> exiting (((step quiet_collaborators fixed_timestep_ns) ^^ i) example_main_loop)
       \<and> \<not> suspended (((step quiet_collaborators fixed_timestep_ns) ^^ i) example_main_loop)"
    by (simp add: steps_quiet example_main_loop_def)
  from fixed_frame_updates [OF ci run _ this]
  show ?thesis
    by (simp add: m fixed_timestep_ns_def)
qed

text \<open>
  C1, amended. The loop makes an update and takes one timestep from the lag only while
  the lag is at least one timestep, fewer than 10 updates were made in the frame and the
  main loop is neither exiting nor suspended; entered with 1000000000 ns, and neither
  exiting nor suspended before each of ten updates, the loop alone makes 10 updates and
  leaves 900000000 ns. In a frame with turbo off after the input: if the main loop is
  neither exiting nor suspended, an accumulated lag of 200 ms or more gives exactly one
  update and leaves 0; a lag from 0 to below 200 ms gives the smaller of 10 and the
  number of whole timesteps in it, and leaves the rest, provided the main loop is
  neither exiting nor suspended before each of these updates. The cap of 10 is met from
  100 ms on: 150 ms gives 10 updates and leaves 50 ms. Nothing is asked of the
  collaborators beyond the updates of the frame.
\<close>

theorem fixed_frame_catch_up:
  assumes "check_input ext g s = (g', s')" and "\<not> turbo s'"
  shows "catch_up ext lg n t =
           (if sint fixed_timestep_ns \<le> sint lg \<and> n < 10 \<and> \<not> exiting t \<and> \<not> suspended t
            then catch_up ext (lg - fixed_timestep_ns) (n + 1) (step ext fixed_timestep_ns t)
            else (lg, n, t))
       \<and> ((\<forall>i < 10. \<not> exiting (((step ext fixed_timestep_ns) ^^ i) t)
                  \<and> \<not> suspended (((step ext fixed_timestep_ns) ^^ i) t)) \<longrightarrow>
            catch_up ext 1000000000 0 t
              = (900000000, 10, ((step ext fixed_timestep_ns) ^^ 10) t))
       \<and> (\<not> exiting s' \<and> \<not> suspended s' \<and> 200000000 \<le> sint (accumulated_lag clk v) \<longrightarrow>
            fst (snd (fixed_frame ext clk v g s)) = 1
          \<and> lag (fst (fixed_frame ext clk v g s)) = 0)
       \<and> (0 \<le> sint (accumulated_lag clk v) \<and> sint (accumulated_lag clk v) < 200000000
          \<and> (\<forall>i < min 10 (nat (sint (accumulated_lag clk v) div 10000000)).
                \<not> exiting (((step ext fixed_timestep_ns) ^^ i) s')
                \<and> \<not> suspended (((step ext fixed_timestep_ns) ^^ i) s')) \<longrightarrow>
            fst (snd (fixed_frame ext clk v g s))
              = min 10 (nat (sint (accumulated_lag clk v) div 10000000))
          \<and> lag (fst (fixed_frame ext clk v g s))
              = accumulated_lag clk v
                - of_nat (min 10 (nat (sint (accumulated_lag clk v) div 10000000)))
                  * fixed_timestep_ns)"
proof -
  have a: "catch_up ext lg n t =
           (if sint fixed_timestep_ns \<le> sint lg \<and> n < 10 \<and> \<not> exiting t \<and> \<not> suspended t
            then catch_up ext (lg - fixed_timestep_ns) (n + 1) (step ext fixed_timestep_ns t)
            else (lg, n, t))"
    by (rule catch_up.simps)
  have b: "catch_up ext 1000000000 0 t
           = (900000000, 10, ((step ext fixed_timestep_ns) ^^ 10) t)"
    if h: "\<forall>i < 10. \<not> exiting (((step ext fixed_timestep_ns) ^^ i) t)
                  \<and> \<not> suspended (((step ext fixed_timestep_ns) ^^ i) t)"
  proof -
    have m: "min (10 - 0) (nat (sint (1000000000 :: 64 word) div 10000000)) = 10" by simp
    from catch_up_count [of 1000000000 0 ext t] h show ?thesis
      unfolding m by (simp add: fixed_timestep_ns_def)
  qed
  have c: "fst (snd (fixed_frame ext clk v g s)) = 1
          \<and> lag (fst (fixed_frame ext clk v g s)) = 0"
    if h: "\<not> exiting s'" "\<not> suspended s'" "200000000 \<le> sint (accumulated_lag clk v)"
  proof -
    have l: "lag (measure_lag clk v) = fixed_timestep_ns"
      using h(3) by (simp add: measure_lag_huge)
    have m: "min 10 (nat (sint fixed_timestep_ns div 10000000)) = 1"
      by (simp add: fixed_timestep_ns_def)
    have "\<forall>i < min 10 (nat (sint (lag (measure_lag clk v)) div 10000000)).
       \<not> exiting (((step ext fixed_timestep_ns) ^^ i) s')
       \<and> \<not> suspended (((step ext fixed_timestep_ns) ^^ i) s')"
      unfolding l m using h(1,2) by simp
    from fixed_frame_updates [OF assms _ this] show ?thesis
      unfolding l m by (simp add: fixed_timestep_ns_def)
  qed
  have d: "fst (snd (fixed_frame ext clk v g s))
              = min 10 (nat (sint (accumulated_lag clk v) div 10000000))
          \<and> lag (fst (fixed_frame ext clk v g s))
              = accumulated_lag clk v
                - of_nat (min 10 (nat (sint (accumulated_lag clk v) div 10000000)))
                  * fixed_timestep_ns"
    if h: "0 \<le> sint (accumulated_lag clk v)" "sint (accumulated_lag clk v) < 200000000"
      "\<forall>i < min 10 (nat (sint (accumulated_lag clk v) div 10000000)).
                \<not> exiting (((step ext fixed_timestep_ns) ^^ i) s')
                \<and> \<not> suspended (((step ext fixed_timestep_ns) ^^ i) s')"
  proof -
    have l: "lag (measure_lag clk v) = accumulated_lag clk v"
      using h(2) by (simp add: measure_lag_small)
    from fixed_frame_updates [OF assms, of clk v] h(1,3) show ?thesis
      unfolding l by blast
  qed
  from a b c d show ?thesis by blast
qed

theorem fixed_frame_catch_up_witness:
  "catch_up exit_at_100 1000000000 0 counting_main_loop
     = (900000000, 10, ((step exit_at_100 fixed_timestep_ns) ^^ 10) counting_main_loop)
   \<and> fst (snd (fixed_frame exit_at_100 still_clock (late_vars 1000000000)
               initial_input_state counting_main_loop)) = 1
   \<and> lag (fst (fixed_frame exit_at_100 still_clock (late_vars 1000000000)
               initial_input_state counting_main_loop)) = 0
   \<and> fst (snd (fixed_frame exit_at_100 still_clock (late_vars 150000000)
               initial_input_state counting_main_loop)) = 10
   \<and> lag (fst (fixed_frame exit_at_100 still_clock (late_vars 150000000)
               initial_input_state counting_main_loop)) = 50000000"
proof -
  have ci: "check_input exit_at_100 initial_input_state counting_main_loop
              = (initial_input_state, counting_main_loop)"
    by (rule check_input_idle) (simp_all add: initial_input_state_def counting_main_loop_def)
  have run: "\<not> turbo counting_main_loop"
    by (simp add: counting_main_loop_def)
  have tr: "\<not> exiting (((step exit_at_100 fixed_timestep_ns) ^^ i) counting_main_loop)
       \<and> \<not> suspended (((step exit_at_100 fixed_timestep_ns) ^^ i) counting_main_loop)"
    if "i < 10" for i
    using steps_exit_at_100 [of counting_main_loop i fixed_timestep_ns] that
    by (simp add: counting_main_loop_def)
  have acc: "accumulated_lag still_clock (late_vars l) = l" for l
    by (simp add: accumulated_lag_def still_clock_def late_vars_def)
  from fixed_frame_catch_up [OF ci run, of _ _ counting_main_loop still_clock "late_vars 1000000000"]
    fixed_frame_catch_up [OF ci run, of _ _ counting_main_loop still_clock "late_vars 150000000"]
    tr [of 0] tr
  show ?thesis
    by (simp add: acc fixed_timestep_ns_def)
qed

section \<open>Properties of the main loop\<close>

subsection \<open>What a call leaves unchanged\<close>

lemma apply_requests_keep:
  "calls (foldl apply_request s rs) = calls s
   \<and> game (foldl apply_request s rs) = game s
   \<and> lua_commands (foldl apply_request s rs) = lua_commands s
   \<and> num_lua_commands_done (foldl apply_request s rs) = num_lua_commands_done s
   \<and> lua_console_enabled (foldl apply_request s rs) = lua_console_enabled s
   \<and> (exiting s \<longrightarrow> exiting (foldl apply_request s rs))"
proof (induction rs arbitrary: s)
  case Nil
  show ?case by simp
next
  case (Cons r rs)
  show ?case
    using Cons.IH [of "apply_request s r"]
    by (cases r) (simp_all add: set_exiting_def set_suspended_def set_game_def)
qed

lemma invoke_keep:
  "calls (snd (invoke ext c s)) = calls s @ [(c, fst (invoke ext c s))]
   \<and> game (snd (invoke ext c s)) = game s
   \<and> lua_commands (snd (invoke ext c s)) = lua_commands s
   \<and> num_lua_commands_done (snd (invoke ext c s)) = num_lua_commands_done s
   \<and> lua_console_enabled (snd (invoke ext c s)) = lua_console_enabled s
   \<and> (exiting s \<longrightarrow> exiting (snd (invoke ext c s)))"
proof -
  obtain r rs w where e: "ext c (world s) = (r, rs, w)" by (cases "ext c (world s)")
  show ?thesis
    using apply_requests_keep [of "record_call c r (s\<lparr>world := w\<rparr>)" rs]
    by (simp add: invoke_def e record_call_def)
qed

lemma perform_keep:
  "calls (perform ext c s) = calls s @ [(c, fst (invoke ext c s))]
   \<and> game (perform ext c s) = game s
   \<and> lua_commands (perform ext c s) = lua_commands s
   \<and> num_lua_commands_done (perform ext c s) = num_lua_commands_done s
   \<and> lua_console_enabled (perform ext c s) = lua_console_enabled s
   \<and> (exiting s \<longrightarrow> exiting (perform ext c s))"
  using invoke_keep [of ext c s] by (simp add: perform_def)

lemma perform_quiet:
  "perform quiet_collaborators c s = s\<lparr>calls := calls s @ [(c, False)]\<rparr>"
  by (simp add: perform_def invoke_def quiet_collaborators_def record_call_def)

lemma step_draw_quiet:
  "exiting (draw quiet_collaborators (step quiet_collaborators t s)) = exiting s
   \<and> suspended (draw quiet_collaborators (step quiet_collaborators t s)) = suspended s
   \<and> lua_commands (draw quiet_collaborators (step quiet_collaborators t s)) = lua_commands s"
  by (simp add: step_def draw_def perform_quiet Let_def)

subsection \<open>The Lua commands\<close>

lemma invoke_result:
  "invoke ext c s = (r, s') \<Longrightarrow>
     calls s' = calls s @ [(c, r)] \<and> game s' = game s \<and> lua_commands s' = lua_commands s
     \<and> num_lua_commands_done s' = num_lua_commands_done s
     \<and> lua_console_enabled s' = lua_console_enabled s
     \<and> (exiting s \<longrightarrow> exiting s')"
  using invoke_keep [of ext c s] by simp

lemma run_lua_command_keep:
  "lock_and_run (calls (run_lua_command ext s command))
     = lock_and_run (calls s) @ [Lua_do_string command]
   \<and> num_lua_commands_done (run_lua_command ext s command) = num_lua_commands_done s + 1"
proof -
  define s1 where "s1 = perform ext (Logger_info (''====== Begin Lua command #''
                @ to_string (num_lua_commands_done (perform ext (Cout [char_of (10 :: nat)]) s))
                @ '' ======'')) (perform ext (Cout [char_of (10 :: nat)]) s)"
  obtain r s2 where i: "invoke ext (Lua_do_string command) s1 = (r, s2)"
    by (cases "invoke ext (Lua_do_string command) s1")
  have a: "lock_and_run (calls s1) = lock_and_run (calls s)"
    "num_lua_commands_done s1 = num_lua_commands_done s"
    unfolding s1_def by (simp_all add: perform_keep lock_and_run_def is_lock_or_run_def)
  have b: "lock_and_run (calls s2) = lock_and_run (calls s) @ [Lua_do_string command]"
    "num_lua_commands_done s2 = num_lua_commands_done s"
    using invoke_result [OF i] a by (simp_all add: lock_and_run_def is_lock_or_run_def)
  have c: "run_lua_command ext s command =
     (let s = perform ext (Cout [char_of (10 :: nat)]) s2;
          s = (if r
               then perform ext (Logger_info (''====== End Lua command #''
                      @ to_string (num_lua_commands_done s) @ '': success ======'')) s
               else perform ext (Logger_info (''====== End Lua command #''
                      @ to_string (num_lua_commands_done s) @ '': error ======'')) s)
      in s\<lparr>num_lua_commands_done := num_lua_commands_done s + 1\<rparr>)"
    unfolding run_lua_command_def Let_def s1_def [symmetric] i by (simp only: prod.case)
  show ?thesis
    unfolding c using b
    by (simp add: Let_def perform_keep lock_and_run_def is_lock_or_run_def)
qed

lemma run_all_lua_commands:
  "lock_and_run (calls (foldl (run_lua_command ext) s cs))
     = lock_and_run (calls s) @ map Lua_do_string cs
   \<and> num_lua_commands_done (foldl (run_lua_command ext) s cs)
     = num_lua_commands_done s + int (length cs)"
proof (induction cs arbitrary: s)
  case Nil
  show ?case by simp
next
  case (Cons c cs)
  show ?case
    using Cons.IH [of "run_lua_command ext s c"] run_lua_command_keep [of ext s c]
    by simp
qed

lemma run_lua_commands_drain:
  "lua_console_enabled s \<and> lua_commands s \<noteq> [] \<longrightarrow>
       lua_commands (run_lua_commands ext s) = []
     \<and> num_lua_commands_done (run_lua_commands ext s)
         = num_lua_commands_done s + int (length (lua_commands s))
     \<and> lock_and_run (calls (run_lua_commands ext s))
         = lock_and_run (calls s) @ [Mutex_lock] @ map Lua_do_string (lua_commands s)
           @ [Mutex_unlock]"
  using run_all_lua_commands [of ext "record_call Mutex_lock False s" "lua_commands s"]
  by (simp add: run_lua_commands_def Let_def record_call_def lock_and_run_def is_lock_or_run_def)

lemma pending_abc:
  "lua_console_enabled pending_abc \<and> lua_commands pending_abc = [''A'', ''B'', ''C'']
   \<and> num_lua_commands_done pending_abc = 0 \<and> num_lua_commands_pushed pending_abc = 3
   \<and> lock_and_run (calls pending_abc)
       = [Mutex_lock, Mutex_unlock, Mutex_lock, Mutex_unlock, Mutex_lock, Mutex_unlock]"
  by (simp add: pending_abc_def push_lua_command_def example_main_loop_def record_call_def
      Let_def lock_and_run_def is_lock_or_run_def)

text \<open>
  C7, as the code has it. With A, B and C pending, the drain locks the mutex, runs the
  three commands and unlocks only then: the lock is not released before the commands
  are executed (the first three pairs of lock and unlock are the three pushes).
\<close>

theorem lock_held_while_running_counterexample:
  "lock_and_run (calls (run_lua_commands quiet_collaborators pending_abc))
     = [Mutex_lock, Mutex_unlock, Mutex_lock, Mutex_unlock, Mutex_lock, Mutex_unlock,
        Mutex_lock, Lua_do_string ''A'', Lua_do_string ''B'', Lua_do_string ''C'', Mutex_unlock]"
  using run_lua_commands_drain [of pending_abc quiet_collaborators]
  by (simp add: pending_abc)

text \<open>
  C7, amended. \<open>push_lua_command\<close> appends the command between a lock and an unlock
  and returns the value the pushed-counter had before its increment. When the Lua
  console is enabled and commands are pending, the drain runs them in the order of the
  list, between one lock and one unlock, adds one to the done-counter for each, and
  leaves the list empty. When the console is disabled the drain does nothing.
\<close>

theorem lua_commands_drain:
  "push_lua_command command s =
     (num_lua_commands_pushed s,
      s\<lparr>lua_commands := lua_commands s @ [command],
        num_lua_commands_pushed := num_lua_commands_pushed s + 1,
        calls := calls s @ [(Mutex_lock, False), (Mutex_unlock, False)]\<rparr>)
   \<and> (lua_console_enabled s \<and> lua_commands s \<noteq> [] \<longrightarrow>
       lua_commands (run_lua_commands ext s) = []
     \<and> num_lua_commands_done (run_lua_commands ext s)
         = num_lua_commands_done s + int (length (lua_commands s))
     \<and> lock_and_run (calls (run_lua_commands ext s))
         = lock_and_run (calls s) @ [Mutex_lock] @ map Lua_do_string (lua_commands s)
           @ [Mutex_unlock])
   \<and> (\<not> lua_console_enabled s \<longrightarrow> run_lua_commands ext s = s)"
proof -
  have "push_lua_command command s =
     (num_lua_commands_pushed s,
      s\<lparr>lua_commands := lua_commands s @ [command],
        num_lua_commands_pushed := num_lua_commands_pushed s + 1,
        calls := calls s @ [(Mutex_lock, False), (Mutex_unlock, False)]\<rparr>)"
    by (simp add: push_lua_command_def record_call_def Let_def)
  moreover have "\<not> lua_console_enabled s \<longrightarrow> run_lua_commands ext s = s"
    by (simp add: run_lua_commands_def)
  ultimately show ?thesis
    using run_lua_commands_drain [of s ext] by blast
qed

theorem lua_commands_drain_witness:
  "fst (push_lua_command ''A'' example_main_loop) = 0
   \<and> fst (push_lua_command ''B'' (snd (push_lua_command ''A'' example_main_loop))) = 1
   \<and> lua_commands pending_abc = [''A'', ''B'', ''C'']
   \<and> lua_commands (run_lua_commands quiet_collaborators pending_abc) = []
   \<and> num_lua_commands_done (run_lua_commands quiet_collaborators pending_abc) = 3
   \<and> lock_and_run (calls (run_lua_commands quiet_collaborators pending_abc))
     = [Mutex_lock, Mutex_unlock, Mutex_lock, Mutex_unlock, Mutex_lock, Mutex_unlock,
        Mutex_lock, Lua_do_string ''A'', Lua_do_string ''B'', Lua_do_string ''C'', Mutex_unlock]"
  using lua_commands_drain [of "''A''" example_main_loop quiet_collaborators]
    lua_commands_drain [of "''B''" "snd (push_lua_command ''A'' example_main_loop)" quiet_collaborators]
    lua_commands_drain [of "''A''" pending_abc quiet_collaborators]
  by (simp add: pending_abc example_main_loop_def)

subsection \<open>The dynamic timestep\<close>

lemma significant_bits_0: "significant_bits 0 = 0"
  by (simp add: significant_bits.simps [of 0])

lemma spill_of_0: "spill_of 0 = 0"
  by (simp add: spill_of_def round_to_float_def significant_bits_0)

lemma dynamic_frame_nominal:
  "delta_buffer v = 0 \<Longrightarrow> dynamic_frame ext clk v g s = (v', r, g', s') \<Longrightarrow>
     (case r of
        None \<Rightarrow> delta_buffer v' = 0
      | Some x \<Rightarrow>
          report_spill x = 0
          \<and> report_smoothed_duration x = report_perfect_frame_duration x
          \<and> report_delta_buffer x = delta_buffer v'
          \<and> (report_last_frame_duration x = report_perfect_frame_duration x
               \<longrightarrow> delta_buffer v' = 0))"
  by (cases "check_input ext g s")
    (auto simp: dynamic_frame_def Let_def spill_of_0 split: if_splits)

lemma dynamic_frames_nominal:
  "delta_buffer v = 0 \<Longrightarrow> dynamic_frames ext clks v g s = (rs, v', g', s') \<Longrightarrow>
   \<forall>x \<in> set rs. report_last_frame_duration x = report_perfect_frame_duration x \<Longrightarrow>
     delta_buffer v' = 0
     \<and> (\<forall>x \<in> set rs. report_spill x = 0
           \<and> report_smoothed_duration x = report_perfect_frame_duration x
           \<and> report_delta_buffer x = 0)"
proof (induction clks arbitrary: v g s rs v' g' s')
  case Nil
  then show ?case by simp
next
  case (Cons clk clks)
  show ?case
  proof (cases "exiting s")
    case True
    with Cons.prems show ?thesis by simp
  next
    case False
    obtain v1 r g1 s1 where f: "dynamic_frame ext clk v g s = (v1, r, g1, s1)"
      by (cases "dynamic_frame ext clk v g s") auto
    obtain rs2 v2 g2 s2 where t: "dynamic_frames ext clks v1 g1 s1 = (rs2, v2, g2, s2)"
      by (cases "dynamic_frames ext clks v1 g1 s1") auto
    from Cons.prems(2) False f t
    have e: "rs = (case r of None \<Rightarrow> [] | Some x \<Rightarrow> [x]) @ rs2" "v' = v2"
      by simp_all
    from dynamic_frame_nominal [OF Cons.prems(1) f] e(1) Cons.prems(3)
    have h: "delta_buffer v1 = 0
        \<and> (\<forall>x \<in> set (case r of None \<Rightarrow> [] | Some x \<Rightarrow> [x]). report_spill x = 0
           \<and> report_smoothed_duration x = report_perfect_frame_duration x
           \<and> report_delta_buffer x = 0)"
      by (cases r) auto
    from e(1) Cons.prems(3)
    have "\<forall>x \<in> set rs2. report_last_frame_duration x = report_perfect_frame_duration x"
      by simp
    from Cons.IH [OF _ t this] h e show ?thesis by auto
  qed
qed

text \<open>
  C6. The buffer is 0 when \<open>dynamic_run\<close> starts. If the measured duration of every
  frame of a run equals the display period of that frame, then in every frame the spill
  is 0, the smoothed duration is the display period and the buffer is 0 after its
  update, and the buffer is 0 at the end of the run.
\<close>

theorem dynamic_nominal_frames:
  "dynamic_run ext start_time_ns clks g s = (reports, v, g', s') \<Longrightarrow>
   \<forall>x \<in> set reports. report_last_frame_duration x = report_perfect_frame_duration x \<Longrightarrow>
     delta_buffer v = 0
     \<and> (\<forall>x \<in> set reports.
           report_spill x = 0
           \<and> report_smoothed_duration x = report_perfect_frame_duration x
           \<and> report_delta_buffer x = 0)"
  unfolding dynamic_run_def
  by (rule dynamic_frames_nominal [of "\<lparr>last_frame_date = start_time_ns, delta_buffer = 0\<rparr>"])
    simp_all

theorem dynamic_nominal_frames_witness:
  "map report_last_frame_duration
       (fst (dynamic_run quiet_collaborators 1000 nominal_clocks initial_input_state
               example_main_loop)) = [16666667, 16666667]
   \<and> map report_smoothed_duration
       (fst (dynamic_run quiet_collaborators 1000 nominal_clocks initial_input_state
               example_main_loop)) = [16666667, 16666667]
   \<and> map report_spill
       (fst (dynamic_run quiet_collaborators 1000 nominal_clocks initial_input_state
               example_main_loop)) = [0, 0]
   \<and> map report_delta_buffer
       (fst (dynamic_run quiet_collaborators 1000 nominal_clocks initial_input_state
               example_main_loop)) = [0, 0]
   \<and> delta_buffer (fst (snd (dynamic_run quiet_collaborators 1000 nominal_clocks
               initial_input_state example_main_loop))) = 0"
proof -
  define R where "R = dynamic_run quiet_collaborators 1000 nominal_clocks initial_input_state
               example_main_loop"
  have q: "sdl_queue initial_input_state = []" by (simp add: initial_input_state_def)
  have e: "\<not> exiting example_main_loop" "\<not> suspended example_main_loop"
    "lua_commands example_main_loop = []"
    by (simp_all add: example_main_loop_def)
  have l: "map report_last_frame_duration (fst R) = [16666667, 16666667]"
    "map report_perfect_frame_duration (fst R) = [16666667, 16666667]"
    "length (fst R) = 2"
    unfolding R_def dynamic_run_def nominal_clocks_def
    by (simp_all add: dynamic_frame_def check_input_idle q e step_draw_quiet Let_def)
  have h: "\<forall>x \<in> set (fst R). report_last_frame_duration x = report_perfect_frame_duration x"
  proof -
    obtain a b where ab: "fst R = [a, b]"
      using l(3) by (cases "fst R"; cases "tl (fst R)") auto
    with l(1,2) show ?thesis by simp
  qed
  have c: "dynamic_run quiet_collaborators 1000 nominal_clocks initial_input_state
               example_main_loop = (fst R, fst (snd R), fst (snd (snd R)), snd (snd (snd R)))"
    by (simp add: R_def)
  have "delta_buffer (fst (snd R)) = 0
     \<and> map report_spill (fst R) = [0, 0]
     \<and> map report_smoothed_duration (fst R) = [16666667, 16666667]
     \<and> map report_delta_buffer (fst R) = [0, 0]"
  proof -
    obtain a b where ab: "fst R = [a, b]"
      using l(3) by (cases "fst R"; cases "tl (fst R)") auto
    from dynamic_nominal_frames [OF c h] l ab show ?thesis by simp
  qed
  with l show ?thesis unfolding R_def by simp
qed

subsection \<open>The dispatch of an event\<close>

lemma no_send_since_iff:
  "no_send_since l s \<longleftrightarrow> (\<exists>a. calls s = l @ a \<and> (\<forall>x \<in> set a. \<not> is_send (fst x)))"
proof
  assume h: "no_send_since l s"
  have "calls s = take (length l) (calls s) @ drop (length l) (calls s)" by simp
  with h have "calls s = l @ drop (length l) (calls s)" by (simp add: no_send_since_def)
  with h show "\<exists>a. calls s = l @ a \<and> (\<forall>x \<in> set a. \<not> is_send (fst x))"
    unfolding no_send_since_def by blast
next
  assume "\<exists>a. calls s = l @ a \<and> (\<forall>x \<in> set a. \<not> is_send (fst x))"
  then show "no_send_since l s" by (auto simp: no_send_since_def)
qed

lemma no_send_since_invoke:
  "no_send_since l s \<Longrightarrow> \<not> is_send c \<Longrightarrow> no_send_since l (snd (invoke ext c s))"
  unfolding no_send_since_iff by (auto simp: invoke_keep)

lemma no_send_since_perform:
  "no_send_since l s \<Longrightarrow> \<not> is_send c \<Longrightarrow> no_send_since l (perform ext c s)"
  by (simp add: perform_def no_send_since_invoke)

lemma no_send_since_set:
  "no_send_since l (set_suspended b s) = no_send_since l s"
  "no_send_since l (set_exiting s) = no_send_since l s"
  by (simp_all add: no_send_since_def set_suspended_def set_exiting_def)

lemma notify_input_window_sends:
  "no_send_since l s \<Longrightarrow> no_send_since l (snd (notify_input_window ext g e s))"
  by (simp add: notify_input_window_def Let_def split_def no_send_since_invoke
      no_send_since_perform no_send_since_set is_send_def)

lemma exiting_invoke: "exiting s \<Longrightarrow> exiting (snd (invoke ext c s))"
  by (simp add: invoke_keep)

lemma exiting_perform: "exiting s \<Longrightarrow> exiting (perform ext c s)"
  by (simp add: perform_keep)

lemma notify_input_exiting:
  "exiting (snd (notify_input_window ext g e s)) \<Longrightarrow> exiting (notify_input ext g e s)"
  by (simp add: notify_input_def Let_def split_def exiting_invoke exiting_perform)

lemma notify_input_window_closing:
  "is_window_closing e \<Longrightarrow> notify_input_window ext g e s = (False, set_exiting s)"
  by (simp add: notify_input_window_def)

lemma notify_input_window_resizing:
  "is_window_resizing e \<Longrightarrow>
   fst (notify_input_window ext g e s) = False
   \<and> map fst (calls (snd (notify_input_window ext g e s))) =
       map fst (calls s) @ Video_on_window_resized (get_window_size e) # Make_root_surface
         # (if game s \<noteq> None then [Game_notify_window_size_changed (get_window_size e)] else [])"
  by (auto simp: notify_input_window_def is_window_closing_def is_window_resizing_def Let_def
      perform_keep)

lemma notify_input_not_handled:
  "\<not> fst (notify_input_window ext g e s) \<Longrightarrow>
   \<exists>rest. map fst (calls (notify_input ext g e s)) =
     map fst (calls (snd (notify_input_window ext g e s))) @ Lua_notify_input e # rest"
  by (simp add: notify_input_def Let_def split_def invoke_keep perform_keep)

lemma notify_input_sends:
  "\<exists>sends. calls (notify_input ext g e s)
        = calls (snd (notify_input_window ext g e s)) @ sends
      \<and> ((Lua_notify_input e, True) \<in> set sends \<longrightarrow> sends = [(Lua_notify_input e, True)])
      \<and> (\<forall>x \<in> set sends. is_send (fst x))"
proof -
  define s1 where "s1 = snd (notify_input_window ext g e s)"
  define h where "h = fst (notify_input_window ext g e s)"
  define r1 where "r1 = fst (invoke ext (Lua_notify_input e) s1)"
  define s2 where "s2 = snd (invoke ext (Lua_notify_input e) s1)"
  define r2 where "r2 = fst (invoke ext (Game_notify_input e) s2)"
  define s3 where "s3 = snd (invoke ext (Game_notify_input e) s2)"
  have c2: "calls s2 = calls s1 @ [(Lua_notify_input e, r1)]"
    by (simp add: s2_def r1_def invoke_keep)
  have c3: "calls s3 = calls s2 @ [(Game_notify_input e, r2)]"
    by (simp add: s3_def r2_def invoke_keep)
  have g3: "game s3 = game s2"
    by (simp add: s3_def invoke_keep)
  consider (handled) h | (lua) "\<not> h" r1 | (game) "\<not> h" "\<not> r1" "game s2 \<noteq> None" r2
    | (dispatch) "\<not> h" "\<not> r1" "game s2 \<noteq> None" "\<not> r2" | (nogame) "\<not> h" "\<not> r1" "game s2 = None"
    by blast
  then show ?thesis
  proof cases
    case handled
    then have "notify_input ext g e s = s1"
      by (simp add: notify_input_def Let_def split_def h_def s1_def)
    then show ?thesis unfolding s1_def by simp
  next
    case lua
    then have "notify_input ext g e s = s2"
      by (simp add: notify_input_def Let_def split_def h_def s1_def s2_def r1_def)
    with c2 lua(2) show ?thesis unfolding s1_def by (simp add: is_send_def)
  next
    case game
    then have "notify_input ext g e s = s3"
      by (simp add: notify_input_def Let_def split_def h_def [symmetric] s1_def [symmetric]
          r1_def [symmetric] s2_def [symmetric] r2_def [symmetric] s3_def [symmetric])
    with c2 c3 game(2) show ?thesis unfolding s1_def by (simp add: is_send_def)
  next
    case dispatch
    then have "notify_input ext g e s = perform ext (Commands_dispatcher_notify_input e) s3"
      by (simp add: notify_input_def Let_def split_def h_def [symmetric] s1_def [symmetric]
          r1_def [symmetric] s2_def [symmetric] r2_def [symmetric] s3_def [symmetric])
    with c2 c3 dispatch(2) show ?thesis
      unfolding s1_def by (simp add: perform_keep is_send_def)
  next
    case nogame
    then have "notify_input ext g e s = perform ext (Commands_dispatcher_notify_input e) s2"
      by (simp add: notify_input_def Let_def split_def h_def [symmetric] s1_def [symmetric]
          r1_def [symmetric] s2_def [symmetric])
    with c2 nogame(2) show ?thesis
      unfolding s1_def by (simp add: perform_keep is_send_def)
  qed
qed

lemma notify_input_added:
  "calls (notify_input ext g e s) = calls s @ calls_added s (notify_input ext g e s)"
proof -
  have "no_send_since (calls s) s" by (simp add: no_send_since_def)
  then have "no_send_since (calls s) (snd (notify_input_window ext g e s))"
    by (rule notify_input_window_sends)
  then obtain a where "calls (snd (notify_input_window ext g e s)) = calls s @ a"
    unfolding no_send_since_iff by blast
  with notify_input_sends [of ext g e s] show ?thesis
    by (auto simp: calls_added_def)
qed

lemma notify_input_handled_by_lua:
  assumes "(Lua_notify_input e, True) \<in> set (calls_added s (notify_input ext g e s))"
  shows "(Game_notify_input e, r) \<notin> set (calls_added s (notify_input ext g e s))
       \<and> (Commands_dispatcher_notify_input e, r) \<notin> set (calls_added s (notify_input ext g e s))"
proof -
  have "no_send_since (calls s) s" by (simp add: no_send_since_def)
  then have "no_send_since (calls s) (snd (notify_input_window ext g e s))"
    by (rule notify_input_window_sends)
  then obtain a where a: "calls (snd (notify_input_window ext g e s)) = calls s @ a"
    "\<forall>x \<in> set a. \<not> is_send (fst x)"
    unfolding no_send_since_iff by blast
  from notify_input_sends [of ext g e s] obtain sends where
    b: "calls (notify_input ext g e s) = calls (snd (notify_input_window ext g e s)) @ sends"
    "(Lua_notify_input e, True) \<in> set sends \<longrightarrow> sends = [(Lua_notify_input e, True)]"
    by blast
  from a(1) b(1) have c: "calls_added s (notify_input ext g e s) = a @ sends"
    by (simp add: calls_added_def)
  from assms c a(2) have "(Lua_notify_input e, True) \<in> set sends"
    by (auto simp: is_send_def)
  with b(2) have "sends = [(Lua_notify_input e, True)]" by blast
  with c a(2) show ?thesis by (auto simp: is_send_def)
qed

text \<open>
  C8. A window-close event leaves the main loop exiting. A window-resize event calls
  the video module, rebuilds the root surface, tells the game if there is one, and then
  is sent to the Lua context like any event that was not handled. A dispatch only adds
  calls to the log, whatever the log held before; when, among the calls it adds, the
  Lua context reports the event handled, it sends the event neither to the game nor to
  the commands dispatcher.
\<close>

theorem notify_input_dispatch:
  "(is_window_closing e \<longrightarrow> exiting (notify_input ext g e s))
   \<and> (is_window_resizing e \<longrightarrow>
        (\<exists>rest. map fst (calls (notify_input ext g e s)) =
           map fst (calls s) @ Video_on_window_resized (get_window_size e) # Make_root_surface
           # (if game s \<noteq> None then [Game_notify_window_size_changed (get_window_size e)] else [])
           @ Lua_notify_input e # rest))
   \<and> calls (notify_input ext g e s) = calls s @ calls_added s (notify_input ext g e s)
   \<and> ((Lua_notify_input e, True) \<in> set (calls_added s (notify_input ext g e s)) \<longrightarrow>
        (\<forall>r. (Game_notify_input e, r) \<notin> set (calls_added s (notify_input ext g e s))
           \<and> (Commands_dispatcher_notify_input e, r)
               \<notin> set (calls_added s (notify_input ext g e s))))"
proof -
  have a: "exiting (notify_input ext g e s)" if "is_window_closing e"
    using that by (simp add: notify_input_exiting notify_input_window_closing set_exiting_def)
  have b: "\<exists>rest. map fst (calls (notify_input ext g e s)) =
           map fst (calls s) @ Video_on_window_resized (get_window_size e) # Make_root_surface
           # (if game s \<noteq> None then [Game_notify_window_size_changed (get_window_size e)] else [])
           @ Lua_notify_input e # rest"
    if "is_window_resizing e"
  proof -
    from notify_input_window_resizing [OF that, of ext g s]
    have h: "\<not> fst (notify_input_window ext g e s)"
      and c: "map fst (calls (snd (notify_input_window ext g e s))) =
       map fst (calls s) @ Video_on_window_resized (get_window_size e) # Make_root_surface
         # (if game s \<noteq> None then [Game_notify_window_size_changed (get_window_size e)] else [])"
      by simp_all
    from notify_input_not_handled [OF h] obtain rest where
      "map fst (calls (notify_input ext g e s)) =
         map fst (calls (snd (notify_input_window ext g e s))) @ Lua_notify_input e # rest"
      by blast
    then show ?thesis unfolding c by simp
  qed
  from a b notify_input_added [of ext g e s] notify_input_handled_by_lua [of e s ext g]
  show ?thesis by blast
qed

theorem notify_input_dispatch_witness:
  "exiting (notify_input quiet_collaborators initial_input_state SDL_QUIT example_main_loop)
   \<and> map fst (calls (notify_input quiet_collaborators initial_input_state
        (SDL_WINDOWEVENT SDL_WINDOWEVENT_RESIZED 640 480) example_main_loop))
      = [Video_on_window_resized (640, 480), Make_root_surface,
         Lua_notify_input (SDL_WINDOWEVENT SDL_WINDOWEVENT_RESIZED 640 480),
         Commands_dispatcher_notify_input (SDL_WINDOWEVENT SDL_WINDOWEVENT_RESIZED 640 480)]
   \<and> calls_added already_dispatched
        (notify_input handling_collaborators initial_input_state (SDL_KEYDOWN 32 0)
           already_dispatched)
      = [(Lua_notify_input (SDL_KEYDOWN 32 0), True)]
   \<and> (Game_notify_input (SDL_KEYDOWN 32 0), False)
      \<notin> set (calls_added already_dispatched
        (notify_input handling_collaborators initial_input_state (SDL_KEYDOWN 32 0)
           already_dispatched))"
proof -
  have 1: "calls_added already_dispatched
        (notify_input handling_collaborators initial_input_state (SDL_KEYDOWN 32 0)
           already_dispatched)
      = [(Lua_notify_input (SDL_KEYDOWN 32 0), True)]"
    by (simp add: notify_input_def notify_input_window_def is_window_closing_def
        is_window_resizing_def is_window_focus_lost_def is_window_focus_gained_def
        is_keyboard_key_pressed_def initial_input_state_def example_main_loop_def
        already_dispatched_def calls_added_def
        invoke_def perform_def handling_collaborators_def record_call_def Let_def)
  have 2: "map fst (calls (notify_input quiet_collaborators initial_input_state
        (SDL_WINDOWEVENT SDL_WINDOWEVENT_RESIZED 640 480) example_main_loop))
      = [Video_on_window_resized (640, 480), Make_root_surface,
         Lua_notify_input (SDL_WINDOWEVENT SDL_WINDOWEVENT_RESIZED 640 480),
         Commands_dispatcher_notify_input (SDL_WINDOWEVENT SDL_WINDOWEVENT_RESIZED 640 480)]"
    by (simp add: notify_input_def notify_input_window_def is_window_closing_def
        is_window_resizing_def get_window_size_def example_main_loop_def
        invoke_def perform_def quiet_collaborators_def record_call_def Let_def)
  from notify_input_dispatch [of SDL_QUIT quiet_collaborators initial_input_state example_main_loop]
    notify_input_dispatch [of "SDL_WINDOWEVENT SDL_WINDOWEVENT_RESIZED 640 480"
      quiet_collaborators initial_input_state example_main_loop]
    notify_input_dispatch [of "SDL_KEYDOWN 32 0" handling_collaborators initial_input_state
      already_dispatched]
    1 2
  show ?thesis
    by (simp add: is_window_closing_def)
qed

end
